theory Spec2Isabelle
  imports Complex_Main "HOL-Library.Word"
begin

section \<open>JavaScript values used by CustomFile\<close>

text \<open>
  \<^verbatim>\<open>src/helpers/customFile.ts\<close> computes with JavaScript numbers. A number is a finite
  value, an infinity or NaN. Finite values are kept exact (a rational): the byte counters
  of the class are naturals, and a progress ratio is the quotient of two of them; the
  rounding of IEEE doubles and the sign of zero are not part of this model.
\<close>

datatype number = Num rat | PosInf | NegInf | NaN

text \<open>The binary \<^verbatim>\<open>+\<close> on numbers (the \<^verbatim>\<open>+=\<close> of the counters).\<close>

fun js_add :: "number \<Rightarrow> number \<Rightarrow> number" where
  "js_add (Num a) (Num b) = Num (a + b)"
| "js_add NaN _ = NaN"
| "js_add _ NaN = NaN"
| "js_add PosInf NegInf = NaN"
| "js_add NegInf PosInf = NaN"
| "js_add PosInf _ = PosInf"
| "js_add NegInf _ = NegInf"
| "js_add _ PosInf = PosInf"
| "js_add _ NegInf = NegInf"

text \<open>The binary \<^verbatim>\<open>/\<close>: a zero divisor gives an infinity, or NaN for \<^verbatim>\<open>0 / 0\<close>.\<close>

fun js_div :: "number \<Rightarrow> number \<Rightarrow> number" where
  "js_div (Num a) (Num b) =
     (if b = 0 then (if a = 0 then NaN else if 0 < a then PosInf else NegInf)
      else Num (a / b))"
| "js_div NaN _ = NaN"
| "js_div _ NaN = NaN"
| "js_div (Num a) _ = Num 0"
| "js_div PosInf (Num b) = (if 0 \<le> b then PosInf else NegInf)"
| "js_div NegInf (Num b) = (if 0 \<le> b then NegInf else PosInf)"
| "js_div _ _ = NaN"

text \<open>The comparison \<^verbatim>\<open><\<close>: false as soon as one side is NaN.\<close>

fun js_lt :: "number \<Rightarrow> number \<Rightarrow> bool" where
  "js_lt (Num a) (Num b) = (a < b)"
| "js_lt NaN _ = False"
| "js_lt _ NaN = False"
| "js_lt NegInf NegInf = False"
| "js_lt NegInf _ = True"
| "js_lt _ NegInf = False"
| "js_lt PosInf _ = False"
| "js_lt _ PosInf = True"

text \<open>The comparison \<^verbatim>\<open><=\<close>, in which the bounds on the counters are stated.\<close>

fun js_le :: "number \<Rightarrow> number \<Rightarrow> bool" where
  "js_le (Num a) (Num b) = (a \<le> b)"
| "js_le NaN _ = False"
| "js_le _ NaN = False"
| "js_le NegInf _ = True"
| "js_le _ PosInf = True"
| "js_le _ _ = False"

text \<open>\<^verbatim>\<open>Math.min\<close> of two numbers.\<close>

fun js_min :: "number \<Rightarrow> number \<Rightarrow> number" where
  "js_min (Num a) (Num b) = Num (min a b)"
| "js_min NaN _ = NaN"
| "js_min _ NaN = NaN"
| "js_min NegInf _ = NegInf"
| "js_min _ NegInf = NegInf"
| "js_min PosInf y = y"
| "js_min x PosInf = x"

text \<open>
  A field of the class that holds a byte count or a piece count is a natural number, or
  \<^verbatim>\<open>null\<close> once \<^verbatim>\<open>destroy()\<close> has run; in arithmetic and in comparisons \<^verbatim>\<open>null\<close> counts
  as 0.
\<close>

definition of_nullable :: "nat option \<Rightarrow> number" where
  "of_nullable v = (case v of None \<Rightarrow> Num 0 | Some n \<Rightarrow> Num (of_nat n))"

text \<open>
  A property read gives a number or \<^verbatim>\<open>undefined\<close>; \<^verbatim>\<open>undefined\<close> in arithmetic is
  NaN.
\<close>

datatype jsval = Undefined | Number number

definition to_number :: "jsval \<Rightarrow> number" where
  "to_number v = (case v of Undefined \<Rightarrow> NaN | Number x \<Rightarrow> x)"

type_synonym byte = "8 word"

text \<open>
  The properties of a \<^verbatim>\<open>Uint8Array\<close> that give its length in bytes are \<^verbatim>\<open>byteLength\<close>
  and \<^verbatim>\<open>length\<close>. A name the array does not have reads as \<^verbatim>\<open>undefined\<close>.
\<close>

definition uint8array_get :: "byte list \<Rightarrow> string \<Rightarrow> jsval" where
  "uint8array_get v prop =
     (if prop = ''byteLength'' then Number (Num (of_nat (length v)))
      else if prop = ''length'' then Number (Num (of_nat (length v)))
      else Undefined)"

subsection \<open>Blobs\<close>

text \<open>
  A \<^verbatim>\<open>Blob\<close> (and a \<^verbatim>\<open>File\<close>, which is one) is its bytes and its content type.
\<close>

record blob =
  bytes :: "byte list"
  btype :: string

definition blob_size :: "blob \<Rightarrow> nat" where
  "blob_size b = length (bytes b)"

text \<open>
  The content type a new blob gets from the value passed as its type, both in
  \<^verbatim>\<open>new Blob(parts, {type})\<close> and in \<^verbatim>\<open>slice(start, end, contentType)\<close>: the empty string
  when the value has a character outside U+0020 to U+007E, and the value in ASCII lower
  case otherwise. \<^verbatim>\<open>null\<close>, which the type field holds after \<^verbatim>\<open>destroy()\<close>, is converted
  to the string \<^verbatim>\<open>null\<close>. A \<^verbatim>\<open>char\<close> is a byte, so a character beyond ASCII is a run of
  bytes above 0x7E.
\<close>

fun ascii_lower :: "char \<Rightarrow> char" where
  "ascii_lower (Char b0 b1 b2 b3 b4 b5 b6 b7) =
     (if 65 \<le> (of_char (Char b0 b1 b2 b3 b4 b5 b6 b7) :: nat)
         \<and> (of_char (Char b0 b1 b2 b3 b4 b5 b6 b7) :: nat) \<le> 90
      then Char b0 b1 b2 b3 b4 True b6 b7
      else Char b0 b1 b2 b3 b4 b5 b6 b7)"

definition content_type :: "string option \<Rightarrow> string" where
  "content_type t =
     (case t of
        None \<Rightarrow> ''null''
      | Some x \<Rightarrow>
          (if list_all (\<lambda>c. 32 \<le> (of_char c :: nat) \<and> (of_char c :: nat) \<le> 126) x
           then map ascii_lower x else []))"

text \<open>
  The chunk given to \<^verbatim>\<open>write\<close> is typed \<^verbatim>\<open>any\<close>. The binary values a transport hands over
  are a \<^verbatim>\<open>Blob\<close>, or a \<^verbatim>\<open>Uint8Array\<close> (what \<^verbatim>\<open>read(false)\<close> emits on the other side). A
  blob has the property \<^verbatim>\<open>size\<close>; a \<^verbatim>\<open>Uint8Array\<close> has \<^verbatim>\<open>byteLength\<close> and \<^verbatim>\<open>length\<close>, and
  no \<^verbatim>\<open>size\<close>. Both can be a part of a new blob.
\<close>

datatype chunk = BlobChunk blob | BufferChunk "byte list"

definition chunk_bytes :: "chunk \<Rightarrow> byte list" where
  "chunk_bytes c = (case c of BlobChunk b \<Rightarrow> bytes b | BufferChunk v \<Rightarrow> v)"

definition chunk_get :: "chunk \<Rightarrow> string \<Rightarrow> jsval" where
  "chunk_get c prop =
     (case c of
        BlobChunk b \<Rightarrow>
          (if prop = ''size'' then Number (Num (of_nat (blob_size b))) else Undefined)
      | BufferChunk v \<Rightarrow> uint8array_get v prop)"

definition has_size :: "chunk \<Rightarrow> bool" where
  "has_size c = (case c of BlobChunk b \<Rightarrow> True | BufferChunk v \<Rightarrow> False)"

text \<open>
  \<^verbatim>\<open>Blob.slice(start, end, contentType)\<close> of the File API. A bound is rounded to an
  integer (ties to even), NaN counts as 0, a negative bound counts from the end, and the
  bound is cut to the size of the blob. The span is empty when the end is not after the
  start. The new blob gets the content type of the third argument.
\<close>

definition round_half_even :: "rat \<Rightarrow> int" where
  "round_half_even r =
     (let f = \<lfloor>r\<rfloor>; d = r - of_int f
      in if d < 1 / 2 then f else if 1 / 2 < d then f + 1
         else if even f then f else f + 1)"

definition to_index :: "number \<Rightarrow> nat \<Rightarrow> nat" where
  "to_index x sz =
     (case x of
        NaN \<Rightarrow> 0
      | PosInf \<Rightarrow> sz
      | NegInf \<Rightarrow> 0
      | Num r \<Rightarrow>
          (let k = round_half_even r
           in if k < 0 then nat (max (int sz + k) 0) else min (nat k) sz))"

definition blob_slice :: "blob \<Rightarrow> number \<Rightarrow> number \<Rightarrow> string option \<Rightarrow> blob" where
  "blob_slice f start stop ty =
     (let sz = blob_size f;
          relativeStart = to_index start sz;
          relativeEnd = to_index stop sz;
          span = relativeEnd - relativeStart
      in \<lparr>bytes = take span (drop relativeStart (bytes f)), btype = content_type ty\<rparr>)"

subsection \<open>Errors, promises, events\<close>

datatype js_error =
    TypeError
  | Error string
  | PlatformError string

datatype completion = Normal | Thrown js_error

datatype promise = Pending | Resolved | Rejected js_error

text \<open>The promise of an \<^verbatim>\<open>async\<close> function whose body completes or throws.\<close>

definition promise_of :: "completion \<Rightarrow> promise" where
  "promise_of c = (case c of Normal \<Rightarrow> Resolved | Thrown err \<Rightarrow> Rejected err)"

text \<open>A promise settles once: a later \<^verbatim>\<open>resolve\<close> or \<^verbatim>\<open>reject\<close> changes nothing.\<close>

definition settle :: "promise \<Rightarrow> promise \<Rightarrow> promise" where
  "settle p r = (if p = Pending then r else p)"

datatype data = Null | BlobData blob | Block "byte list"

datatype payload = NoArgs | NumberArg number | DataArg data | ErrorArg js_error

datatype href = EntryURL | FileObjectURL | BlobObjectURL blob

text \<open>
  What a call does that can be observed from outside the object, in order: the events it
  emits, the registered callbacks these invoke, and its requests to the platform (the
  file system, the writer, the download anchor). An exception that escapes a callback
  run by the platform, and a rejection nobody handles, are observed too.
\<close>

datatype action =
    Emitted string payload
  | Invoked nat string payload
  | RequestFileSystem "nat option" "nat option"
  | GetFile "string option" bool
  | CreateWriter
  | Seek number
  | WriterWrite blob
  | RemoveEntry
  | Download "string option" href
  | Uncaught js_error
  | Unhandled js_error

fun emitted :: "action list \<Rightarrow> (string \<times> payload) list" where
  "emitted [] = []"
| "emitted (Emitted evt p # tr) = (evt, p) # emitted tr"
| "emitted (_ # tr) = emitted tr"

fun invoked :: "action list \<Rightarrow> (nat \<times> string \<times> payload) list" where
  "invoked [] = []"
| "invoked (Invoked cb evt p # tr) = (cb, evt, p) # invoked tr"
| "invoked (_ # tr) = invoked tr"

section \<open>The CustomFile object\<close>

datatype write_mode = Fs | Mem

text \<open>
  The fields of the class, without their underscore. A field that holds a platform object
  (\<^verbatim>\<open>_fs\<close>, \<^verbatim>\<open>_fileEntry\<close>, \<^verbatim>\<open>_readStream\<close>, \<^verbatim>\<open>_reader\<close>, the two window functions) is a
  flag: whether it is set. \<^verbatim>\<open>None\<close> is \<^verbatim>\<open>null\<close> or \<^verbatim>\<open>undefined\<close>. \<^verbatim>\<open>listeners\<close> is the
  registry of the \<^verbatim>\<open>EventEmitter\<close> base class for the callbacks registered through
  \<^verbatim>\<open>on\<close> and \<^verbatim>\<open>once\<close>, in registration order; a callback is an opaque identifier, and
  running it neither throws nor calls back into the object.
\<close>

record custom_file =
  mode :: "nat option"
  nativeFile :: "blob option"
  memoryStorage :: "chunk list option"
  showSaveFilePicker :: bool
  requestFileSystem :: bool
  fs :: bool
  fname :: "string option"
  localName :: "string option"
  ftype :: "string option"
  fsize :: "nat option"
  pieces :: "nat option"
  pieceLength :: "nat option"
  readStream :: bool
  reader :: bool
  writeMode :: "write_mode option"
  create :: bool
  fileEntry :: bool
  bytesWritten :: number
  bytesRead :: number
  destroyed :: bool
  listeners :: "(string \<times> nat) list"

record custom_file_options =
  opt_file :: "blob option"
  opt_pieces :: nat
  opt_pieceLength :: nat
  opt_filename :: string
  opt_type :: string
  opt_size :: nat

text \<open>The properties of \<^verbatim>\<open>window\<close> that the class reads.\<close>

record window =
  w_showSaveFilePicker :: bool
  w_requestFileSystem :: bool
  w_webkitRequestFileSystem :: bool
  w_TEMPORARY :: "nat option"

definition truthy :: "nat option \<Rightarrow> bool" where
  "truthy v = (case v of None \<Rightarrow> False | Some n \<Rightarrow> 0 < n)"

subsection \<open>The event emitter\<close>

text \<open>
  \<^verbatim>\<open>EventEmitter.on\<close> appends a callback to the registry, and \<^verbatim>\<open>EventEmitter.emit\<close>
  invokes every callback registered for the event, in registration order. An \<^verbatim>\<open>error\<close>
  event for which no callback is registered is thrown by \<^verbatim>\<open>emit\<close>: the error passed, or a
  new error when the argument is not one. The class overrides \<^verbatim>\<open>on\<close> and \<^verbatim>\<open>once\<close>, and
  both call \<^verbatim>\<open>super.on\<close>.
\<close>

definition super_on :: "custom_file \<Rightarrow> string \<Rightarrow> nat \<Rightarrow> custom_file" where
  "super_on s evt callback = s\<lparr>listeners := listeners s @ [(evt, callback)]\<rparr>"

definition on :: "custom_file \<Rightarrow> string \<Rightarrow> nat \<Rightarrow> custom_file" where
  "on s evt callback = super_on s evt callback"

definition once :: "custom_file \<Rightarrow> string \<Rightarrow> nat \<Rightarrow> custom_file" where
  "once s evt callback = super_on s evt callback"

definition callbacks :: "custom_file \<Rightarrow> string \<Rightarrow> payload \<Rightarrow> action list" where
  "callbacks s evt p =
     map (\<lambda>l. Invoked (snd l) evt p) (filter (\<lambda>l. fst l = evt) (listeners s))"

definition super_emit :: "custom_file \<Rightarrow> string \<Rightarrow> payload \<Rightarrow> action list \<times> completion" where
  "super_emit s evt p =
     (if evt = ''error'' \<and> callbacks s evt p = [] then
        ([Emitted evt p],
         Thrown (case p of ErrorArg err \<Rightarrow> err | _ \<Rightarrow> Error ''Unhandled error.''))
      else (Emitted evt p # callbacks s evt p, Normal))"

text \<open>
  \<^verbatim>\<open>destroy()\<close> emits \<^verbatim>\<open>done\<close>, clears the fields it lists, and emits \<^verbatim>\<open>destroy\<close>. It
  leaves \<^verbatim>\<open>_readStream\<close>, \<^verbatim>\<open>_reader\<close> and \<^verbatim>\<open>_fileEntry\<close> as they are.
\<close>

definition destroy :: "custom_file \<Rightarrow> custom_file \<times> action list" where
  "destroy s =
     (let tr1 = fst (super_emit s ''done'' NoArgs);
          s1 = s\<lparr>mode := None, nativeFile := None, localName := None, fname := None,
                 ftype := None, fsize := None, pieces := None, pieceLength := None,
                 memoryStorage := None, showSaveFilePicker := False,
                 requestFileSystem := False, fs := False, writeMode := None,
                 bytesWritten := Num 0, bytesRead := Num 0, create := True,
                 destroyed := True\<rparr>;
          tr2 = fst (super_emit s1 ''destroy'' NoArgs)
      in (s1, tr1 @ tr2))"

text \<open>
  The constructor registers \<^verbatim>\<open>destroy\<close> as the first listener of \<^verbatim>\<open>finish\<close>, and the class
  has no method that removes a listener: every emission of \<^verbatim>\<open>finish\<close> runs \<^verbatim>\<open>destroy\<close>
  first, then the callbacks registered for \<^verbatim>\<open>finish\<close>.
\<close>

definition emit ::
  "custom_file \<Rightarrow> string \<Rightarrow> payload \<Rightarrow> custom_file \<times> action list \<times> completion" where
  "emit s evt p =
     (if evt = ''finish''
      then (let (s1, tr) = destroy s
            in (s1, Emitted evt p # tr @ callbacks s1 evt p, Normal))
      else (s, super_emit s evt p))"

text \<open>
  Code that the platform calls back: an exception that escapes it goes to nobody. The
  same for the callback given to \<^verbatim>\<open>then\<close>, whose exception rejects a promise nobody
  holds.
\<close>

definition in_callback ::
  "custom_file \<times> action list \<times> completion \<Rightarrow> custom_file \<times> action list" where
  "in_callback r =
     (case r of
        (s, tr, Normal) \<Rightarrow> (s, tr)
      | (s, tr, Thrown err) \<Rightarrow> (s, tr @ [Uncaught err]))"

definition in_then ::
  "custom_file \<times> action list \<times> completion \<Rightarrow> custom_file \<times> action list" where
  "in_then r =
     (case r of
        (s, tr, Normal) \<Rightarrow> (s, tr)
      | (s, tr, Thrown err) \<Rightarrow> (s, tr @ [Unhandled err]))"

subsection \<open>The constructor and init\<close>

text \<open>
  \<^verbatim>\<open>stamp\<close> is the decimal rendering of \<^verbatim>\<open>new Date().getTime()\<close> at construction.
\<close>

definition new_custom_file ::
  "nat \<Rightarrow> custom_file_options \<Rightarrow> window \<Rightarrow> string \<Rightarrow> custom_file" where
  "new_custom_file m opts w stamp =
     \<lparr>mode = Some m,
      nativeFile = opt_file opts,
      memoryStorage = None,
      showSaveFilePicker = w_showSaveFilePicker w,
      requestFileSystem = (w_requestFileSystem w \<or> w_webkitRequestFileSystem w),
      fs = False,
      fname = Some (opt_filename opts),
      localName = Some (stamp @ ''-'' @ opt_filename opts),
      ftype = Some (opt_type opts),
      fsize = Some (opt_size opts),
      pieces = Some (opt_pieces opts),
      pieceLength = Some (opt_pieceLength opts),
      readStream = False,
      reader = False,
      writeMode = None,
      create = True,
      fileEntry = False,
      bytesWritten = Num 0,
      bytesRead = Num 0,
      destroyed = False,
      listeners = []\<rparr>"

text \<open>
  The platform answers \<^verbatim>\<open>requestFileSystem\<close> through one of the two callbacks the code
  passes. \<^verbatim>\<open>init_try\<close> is the body of the \<^verbatim>\<open>try\<close> block; what it throws is emitted as an
  \<^verbatim>\<open>error\<close> event by the \<^verbatim>\<open>catch\<close> block, and \<^verbatim>\<open>init\<close>, an \<^verbatim>\<open>async\<close> function, returns a
  promise.
\<close>

datatype init_env = Granted | Denied js_error

definition use_memory :: "custom_file \<Rightarrow> custom_file \<times> action list \<times> completion" where
  "use_memory s = emit (s\<lparr>memoryStorage := Some [], writeMode := Some Mem\<rparr>) ''ready'' NoArgs"

definition init_try ::
  "custom_file \<Rightarrow> window \<Rightarrow> init_env \<Rightarrow> custom_file \<times> action list \<times> completion" where
  "init_try s w env =
     (if mode s = Some 1 then
        (if js_lt (of_nullable (fsize s)) (Num (500 * 1024 * 1024)) then use_memory s
         else if requestFileSystem s \<and> truthy (w_TEMPORARY w) then
           (case env of
              Granted \<Rightarrow>
                (let (s1, tr) = in_callback
                       (emit (s\<lparr>fs := True, writeMode := Some Fs\<rparr>) ''ready'' NoArgs)
                 in (s1, RequestFileSystem (w_TEMPORARY w) (fsize s) # tr, Normal))
            | Denied err \<Rightarrow>
                (let (s1, tr) = in_callback (emit s ''error'' (ErrorArg err))
                 in (s1, RequestFileSystem (w_TEMPORARY w) (fsize s) # tr, Normal)))
         else use_memory s)
      else if mode s = Some 2 then
        (case nativeFile s of
           Some f \<Rightarrow> emit (s\<lparr>readStream := True\<rparr>) ''ready'' NoArgs
         | None \<Rightarrow>
             emit s ''error''
               (ErrorArg (Error ''Reading mode. Expected File instance but received undefined'')))
      else (s, [], Thrown (Error ''Unsupported file mode.'')))"

definition init ::
  "custom_file \<Rightarrow> window \<Rightarrow> init_env \<Rightarrow> custom_file \<times> action list \<times> promise" where
  "init s w env =
     (case init_try s w env of
        (s1, tr, Normal) \<Rightarrow> (s1, tr, Resolved)
      | (s1, tr, Thrown err) \<Rightarrow>
          (let (s2, tr2, c) = emit s1 ''error'' (ErrorArg err)
           in (s2, tr @ tr2, promise_of c)))"

subsection \<open>Writing\<close>

text \<open>
  \<^verbatim>\<open>_writeMem\<close> is an \<^verbatim>\<open>async\<close> function: an exception in its body (pushing onto a
  storage that is \<^verbatim>\<open>null\<close>) rejects the promise it returns.
\<close>

definition writeMem :: "custom_file \<Rightarrow> chunk \<Rightarrow> custom_file \<times> action list \<times> promise" where
  "writeMem s chunk =
     (case memoryStorage s of
        None \<Rightarrow> (s, [], Rejected TypeError)
      | Some ms \<Rightarrow>
          (let s1 = s\<lparr>memoryStorage := Some (ms @ [chunk])\<rparr>;
               s2 = s1\<lparr>bytesWritten :=
                        js_add (bytesWritten s1) (to_number (chunk_get chunk ''size''))\<rparr>;
               (s3, tr, c) = emit s2 ''progress''
                 (NumberArg (js_div (Num (of_nat (length (ms @ [chunk])))) (of_nullable (pieces s2))))
           in (s3, tr, promise_of c)))"

text \<open>
  \<^verbatim>\<open>_writeFs\<close> hands callbacks to the platform. \<^verbatim>\<open>getFile\<close> answers through its error
  callback or with an entry; \<^verbatim>\<open>createWriter\<close> then gives a writer (the code passes it no
  error callback); the writer, once asked to write, fires the events for which the code
  installed the handlers \<^verbatim>\<open>onwriteend\<close> and \<^verbatim>\<open>onerror\<close>. One call of \<^verbatim>\<open>_writeFs\<close> is
  modelled with its callbacks run to the end, before the next call on the object: the
  appends on one instance are issued one at a time.
\<close>

datatype writer_event = WriteEnd | WriteError js_error

datatype fs_write_env = GetFileFails js_error | NoWriter | WriterFires "writer_event list"

definition onwriteend ::
  "blob \<Rightarrow> custom_file \<times> action list \<times> promise \<Rightarrow> custom_file \<times> action list \<times> promise" where
  "onwriteend b st =
     (case st of (s, tr, p) \<Rightarrow>
        (let s1 = s\<lparr>bytesWritten := js_add (bytesWritten s) (Num (of_nat (blob_size b)))\<rparr>;
             (s2, tr2, c) = emit s1 ''progress''
               (NumberArg (js_div (bytesWritten s1) (of_nullable (fsize s1))))
         in case c of
              Normal \<Rightarrow> (s2, tr @ tr2, settle p Resolved)
            | Thrown err \<Rightarrow> (s2, tr @ tr2 @ [Uncaught err], p)))"

definition onerror ::
  "js_error \<Rightarrow> custom_file \<times> action list \<times> promise \<Rightarrow> custom_file \<times> action list \<times> promise" where
  "onerror err st = (case st of (s, tr, p) \<Rightarrow> (s, tr, settle p (Rejected err)))"

fun writer_fires ::
  "blob \<Rightarrow> writer_event list \<Rightarrow> custom_file \<times> action list \<times> promise
     \<Rightarrow> custom_file \<times> action list \<times> promise" where
  "writer_fires b [] st = st"
| "writer_fires b (WriteEnd # evs) st = writer_fires b evs (onwriteend b st)"
| "writer_fires b (WriteError err # evs) st = writer_fires b evs (onerror err st)"

definition writeFs ::
  "custom_file \<Rightarrow> chunk \<Rightarrow> fs_write_env \<Rightarrow> custom_file \<times> action list \<times> promise" where
  "writeFs s chunk env =
     (if \<not> fs s then (s, [], Rejected TypeError)
      else
        (case env of
           GetFileFails err \<Rightarrow> (s, [GetFile (localName s) (create s)], Rejected err)
         | NoWriter \<Rightarrow>
             (s\<lparr>create := False, fileEntry := True\<rparr>,
              [GetFile (localName s) (create s), CreateWriter], Pending)
         | WriterFires evs \<Rightarrow>
             (let s1 = s\<lparr>create := False, fileEntry := True\<rparr>;
                  b = \<lparr>bytes = chunk_bytes chunk, btype = content_type (ftype s1)\<rparr>
              in writer_fires b evs
                   (s1, [GetFile (localName s) (create s), CreateWriter,
                         Seek (bytesWritten s1), WriterWrite b], Pending))))"

text \<open>
  \<^verbatim>\<open>write\<close> returns the promise of the strategy, or a resolved promise after the \<^verbatim>\<open>error\<close>
  event of a missing write mode; it throws what that \<^verbatim>\<open>emit\<close> throws (\<^verbatim>\<open>Inl\<close>).
\<close>

definition write_chunk ::
  "custom_file \<Rightarrow> chunk \<Rightarrow> fs_write_env
     \<Rightarrow> custom_file \<times> action list \<times> (js_error + promise)" where
  "write_chunk s chunk env =
     (case writeMode s of
        Some Mem \<Rightarrow> (case writeMem s chunk of (s1, tr, p) \<Rightarrow> (s1, tr, Inr p))
      | Some Fs \<Rightarrow> (case writeFs s chunk env of (s1, tr, p) \<Rightarrow> (s1, tr, Inr p))
      | None \<Rightarrow>
          (let (s1, tr, c) = emit s ''error'' (ErrorArg (Error ''No write mode set.''))
           in case c of
                Normal \<Rightarrow> (s1, tr, Inr Resolved)
              | Thrown err \<Rightarrow> (s1, tr, Inl err)))"

subsection \<open>Reading\<close>

text \<open>
  What \<^verbatim>\<open>reader.read()\<close> resolves with: a block of bytes (\<^verbatim>\<open>done\<close> false), or the end of
  the stream (\<^verbatim>\<open>done\<close> true, \<^verbatim>\<open>value\<close> undefined). The callback given to \<^verbatim>\<open>then\<close> runs
  after \<^verbatim>\<open>read\<close> has returned. \<^verbatim>\<open>emit_then\<close> is one \<^verbatim>\<open>emit\<close> after what came before it in
  a body, skipped when that has thrown.
\<close>

datatype stream_result = StreamBlock "byte list" | StreamDone

definition emit_then ::
  "custom_file \<times> action list \<times> completion \<Rightarrow> string \<Rightarrow> (custom_file \<Rightarrow> payload)
     \<Rightarrow> custom_file \<times> action list \<times> completion" where
  "emit_then r evt arg =
     (case r of
        (s, tr, Thrown err) \<Rightarrow> (s, tr, Thrown err)
      | (s, tr, Normal) \<Rightarrow> (case emit s evt (arg s) of (s1, tr1, c) \<Rightarrow> (s1, tr @ tr1, c)))"

definition stream_callback ::
  "custom_file \<Rightarrow> stream_result \<Rightarrow> custom_file \<times> action list \<times> completion" where
  "stream_callback s env =
     (case env of
        StreamDone \<Rightarrow>
          (case emit s ''data'' (DataArg Null) of
             (s1, tr, Normal) \<Rightarrow> (s1, tr, Thrown TypeError)
           | (s1, tr, Thrown err) \<Rightarrow> (s1, tr, Thrown err))
      | StreamBlock v \<Rightarrow>
          (let s1 = s\<lparr>bytesRead :=
                      js_add (bytesRead s) (to_number (uint8array_get v ''bytesLenght''))\<rparr>
           in emit_then (emit s1 ''data'' (DataArg (Block v))) ''progress''
                (\<lambda>s2. NumberArg (js_div (bytesRead s2) (of_nullable (fsize s2))))))"

definition read ::
  "custom_file \<Rightarrow> bool \<Rightarrow> stream_result \<Rightarrow> custom_file \<times> action list \<times> completion" where
  "read s inChunk env =
     (if inChunk then
        (if js_lt (bytesRead s) (of_nullable (fsize s)) then
           (case nativeFile s of
              None \<Rightarrow> (s, [], Thrown TypeError)
            | Some f \<Rightarrow>
                (let b = blob_slice f (bytesRead s)
                           (js_min (js_add (bytesRead s) (of_nullable (pieceLength s)))
                              (of_nullable (fsize s)))
                           (ftype s);
                     s1 = s\<lparr>bytesRead := js_add (bytesRead s) (Num (of_nat (blob_size b)))\<rparr>
                 in emit_then (emit s1 ''data'' (DataArg (BlobData b))) ''progress''
                      (\<lambda>s2. NumberArg (js_div (bytesRead s2) (of_nullable (fsize s2))))))
         else emit s ''data'' (DataArg Null))
      else
        (if \<not> readStream s then
           emit s ''error'' (ErrorArg (Error ''Cannot read before init() is called.''))
         else
           (let (s1, tr) = in_then (stream_callback (s\<lparr>reader := True\<rparr>) env)
            in (s1, tr, Normal))))"

subsection \<open>Save, remove\<close>

text \<open>
  The platform answers \<^verbatim>\<open>getFile\<close> with its error callback or with an entry, and the
  entry's \<^verbatim>\<open>remove\<close> with its success or its error callback. The promise \<^verbatim>\<open>remove()\<close>
  returns is resolved in one place only; an exception in its executor rejects it.
\<close>

datatype remove_env = GetFileError js_error | Removed | RemoveError js_error

definition remove ::
  "custom_file \<Rightarrow> remove_env \<Rightarrow> custom_file \<times> action list \<times> promise" where
  "remove s env =
     (case writeMode s of
        Some Fs \<Rightarrow>
          (if \<not> fs s then (s, [], Rejected TypeError)
           else
             (case env of
                GetFileError err \<Rightarrow>
                  (let (s1, tr) = in_callback (emit s ''error'' (ErrorArg err))
                   in (s1, GetFile (localName s) False # tr, Pending))
              | Removed \<Rightarrow>
                  (case emit s ''finish'' NoArgs of
                     (s1, tr, Normal) \<Rightarrow>
                       (s1, [GetFile (localName s) False, RemoveEntry] @ tr, Resolved)
                   | (s1, tr, Thrown err) \<Rightarrow>
                       (s1, [GetFile (localName s) False, RemoveEntry] @ tr @ [Uncaught err],
                        Pending))
              | RemoveError err \<Rightarrow>
                  (let (s1, tr) = in_callback (emit s ''error'' (ErrorArg err))
                   in (s1, [GetFile (localName s) False, RemoveEntry] @ tr, Pending))))
      | Some Mem \<Rightarrow>
          (case emit s ''finish'' NoArgs of
             (s1, tr, Normal) \<Rightarrow> (s1, tr, Pending)
           | (s1, tr, Thrown err) \<Rightarrow> (s1, tr, Rejected err))
      | None \<Rightarrow> (s, [], Pending))"

text \<open>
  \<^verbatim>\<open>save()\<close> builds the download link and clicks it; the click handler queues \<^verbatim>\<open>remove\<close>
  as a microtask. The last component says whether \<^verbatim>\<open>remove\<close> was queued. On the
  file-system path without \<^verbatim>\<open>webkitRequestFileSystem\<close> the link is built in the callback
  of \<^verbatim>\<open>fileEntry.file\<close>; \<^verbatim>\<open>file_cb\<close> says whether the platform calls it.
\<close>

definition save ::
  "custom_file \<Rightarrow> window \<Rightarrow> bool \<Rightarrow> custom_file \<times> action list \<times> completion \<times> bool" where
  "save s w file_cb =
     (case writeMode s of
        Some Fs \<Rightarrow>
          (if \<not> fileEntry s then (s, [], Thrown TypeError, False)
           else if w_webkitRequestFileSystem w then
             (s, [Download (fname s) EntryURL], Normal, True)
           else if file_cb then (s, [Download (fname s) FileObjectURL], Normal, True)
           else (s, [], Normal, False))
      | Some Mem \<Rightarrow>
          (case memoryStorage s of
             None \<Rightarrow> (s, [], Thrown TypeError, False)
           | Some ms \<Rightarrow>
               (s, [Download (fname s)
                      (BlobObjectURL
                         \<lparr>bytes = concat (map chunk_bytes ms), btype = content_type (ftype s)\<rparr>)],
                Normal, True))
      | None \<Rightarrow> (s, [], Normal, False))"

subsection \<open>Sequences of calls\<close>

text \<open>
  A call on the object, with what the platform answers to it. A \<^verbatim>\<open>save\<close> that queued
  \<^verbatim>\<open>remove\<close> is followed by that \<^verbatim>\<open>remove\<close>.
\<close>

datatype op =
    Op_init window init_env
  | Op_write chunk fs_write_env
  | Op_read bool stream_result
  | Op_save window bool remove_env
  | Op_remove remove_env
  | Op_destroy
  | Op_on string nat
  | Op_once string nat
  | Op_emit string payload

fun exec :: "custom_file \<Rightarrow> op \<Rightarrow> custom_file \<times> action list" where
  "exec s (Op_init w env) = (case init s w env of (s1, tr, p) \<Rightarrow> (s1, tr))"
| "exec s (Op_write chunk env) = (case write_chunk s chunk env of (s1, tr, p) \<Rightarrow> (s1, tr))"
| "exec s (Op_read inChunk env) = (case read s inChunk env of (s1, tr, c) \<Rightarrow> (s1, tr))"
| "exec s (Op_save w file_cb env) =
     (case save s w file_cb of
        (s1, tr, c, queued) \<Rightarrow>
          (if queued then (case remove s1 env of (s2, tr2, p) \<Rightarrow> (s2, tr @ tr2))
           else (s1, tr)))"
| "exec s (Op_remove env) = (case remove s env of (s1, tr, p) \<Rightarrow> (s1, tr))"
| "exec s Op_destroy = destroy s"
| "exec s (Op_on evt callback) = (on s evt callback, [])"
| "exec s (Op_once evt callback) = (once s evt callback, [])"
| "exec s (Op_emit evt p) = (case emit s evt p of (s1, tr, c) \<Rightarrow> (s1, tr))"

fun run :: "custom_file \<Rightarrow> op list \<Rightarrow> custom_file \<times> action list" where
  "run s [] = (s, [])"
| "run s (x # xs) =
     (case exec s x of (s1, tr) \<Rightarrow> (case run s1 xs of (s2, tr2) \<Rightarrow> (s2, tr @ tr2)))"

text \<open>
  The calls that leave the object in use and count bytes as numbers: \<^verbatim>\<open>init\<close>, \<^verbatim>\<open>write\<close>
  (to which a writer answers with at most one \<^verbatim>\<open>writeend\<close>, and on the memory strategy
  with a chunk that has a \<^verbatim>\<open>size\<close>), a chunked \<^verbatim>\<open>read\<close>, \<^verbatim>\<open>on\<close>, \<^verbatim>\<open>once\<close>, and \<^verbatim>\<open>emit\<close> of
  an event other than \<^verbatim>\<open>finish\<close>. The others run \<^verbatim>\<open>destroy()\<close> (directly, or through
  \<^verbatim>\<open>finish\<close>) or read from the stream. \<^verbatim>\<open>counting_run\<close> says that every call of a
  sequence is such a call in the state it is made in, and \<^verbatim>\<open>appended_bytes\<close> is the total
  byte length of the chunks a sequence of calls passes to \<^verbatim>\<open>write\<close>.
\<close>

fun counting_call :: "custom_file \<Rightarrow> op \<Rightarrow> bool" where
  "counting_call s (Op_init w env) = True"
| "counting_call s (Op_write chunk env) =
     ((if writeMode s = Some Mem then has_size chunk else True)
      \<and> (case env of WriterFires evs \<Rightarrow> count_list evs WriteEnd \<le> 1 | _ \<Rightarrow> True))"
| "counting_call s (Op_read inChunk env) = inChunk"
| "counting_call s (Op_on evt callback) = True"
| "counting_call s (Op_once evt callback) = True"
| "counting_call s (Op_emit evt p) = (evt \<noteq> ''finish'')"
| "counting_call s x = False"

fun counting_run :: "custom_file \<Rightarrow> op list \<Rightarrow> bool" where
  "counting_run s [] = True"
| "counting_run s (x # xs) = (counting_call s x \<and> counting_run (fst (exec s x)) xs)"

fun appended_bytes :: "op list \<Rightarrow> nat" where
  "appended_bytes [] = 0"
| "appended_bytes (Op_write chunk env # xs) = length (chunk_bytes chunk) + appended_bytes xs"
| "appended_bytes (x # xs) = appended_bytes xs"

subsection \<open>Sample instances\<close>

text \<open>
  A ten-byte file in two pieces of five bytes, a window that offers the file system (with
  a \<^verbatim>\<open>TEMPORARY\<close> constant that is not 0), and a declared size of 600 MiB for the
  instances that take the file-system strategy.
\<close>

definition sample_file :: blob where
  "sample_file = \<lparr>bytes = [1, 2, 3, 4, 5, 6, 7, 8, 9, 10], btype = ''text/plain''\<rparr>"

definition sample_options :: custom_file_options where
  "sample_options =
     \<lparr>opt_file = Some sample_file, opt_pieces = 2, opt_pieceLength = 5,
      opt_filename = ''a.txt'', opt_type = ''text/plain'', opt_size = 10\<rparr>"

definition large_options :: custom_file_options where
  "large_options =
     \<lparr>opt_file = None, opt_pieces = 2, opt_pieceLength = 314572800,
      opt_filename = ''b.bin'', opt_type = ''application/octet-stream'',
      opt_size = 629145600\<rparr>"

definition sample_window :: window where
  "sample_window =
     \<lparr>w_showSaveFilePicker = False, w_requestFileSystem = True,
      w_webkitRequestFileSystem = True, w_TEMPORARY = Some 1\<rparr>"

definition sample_chunk :: chunk where
  "sample_chunk = BlobChunk \<lparr>bytes = [1, 2, 3, 4, 5], btype = []\<rparr>"

definition sample_buffer :: chunk where
  "sample_buffer = BufferChunk [1, 2, 3, 4, 5]"

text \<open>
  A reader whose declared size (16) is not the size of its file (10), and one whose type
  has capital letters.
\<close>

definition long_options :: custom_file_options where
  "long_options =
     \<lparr>opt_file = Some sample_file, opt_pieces = 4, opt_pieceLength = 5,
      opt_filename = ''a.txt'', opt_type = ''text/plain'', opt_size = 16\<rparr>"

definition capital_options :: custom_file_options where
  "capital_options =
     \<lparr>opt_file = Some sample_file, opt_pieces = 2, opt_pieceLength = 5,
      opt_filename = ''a.txt'', opt_type = ''Text/Plain'', opt_size = 10\<rparr>"

text \<open>A write-mode instance on the memory strategy, one on the file system, a reader.\<close>

definition mem_instance :: custom_file where
  "mem_instance = fst (init (new_custom_file 1 sample_options sample_window ''0'') sample_window Granted)"

definition fs_instance :: custom_file where
  "fs_instance = fst (init (new_custom_file 1 large_options sample_window ''0'') sample_window Granted)"

definition read_instance :: custom_file where
  "read_instance = fst (init (new_custom_file 2 sample_options sample_window ''0'') sample_window Granted)"

section \<open>Properties\<close>

lemma super_emit_plain:
  "evt \<noteq> ''error'' \<Longrightarrow> super_emit s evt p = (Emitted evt p # callbacks s evt p, Normal)"
  by (simp add: super_emit_def)

lemma emit_plain:
  "evt \<noteq> ''finish'' \<Longrightarrow> evt \<noteq> ''error'' \<Longrightarrow>
   emit s evt p = (s, Emitted evt p # callbacks s evt p, Normal)"
  by (simp add: emit_def super_emit_def)

lemma emitted_append: "emitted (xs @ ys) = emitted xs @ emitted ys"
  by (induction xs rule: emitted.induct) simp_all

lemma emitted_callbacks: "emitted (callbacks s evt p) = []"
proof -
  have "emitted (map (\<lambda>l. Invoked (snd l) evt p) ls) = []" for ls
    by (induction ls) simp_all
  then show ?thesis by (simp add: callbacks_def)
qed

lemma emitted_super_emit: "emitted (fst (super_emit s evt p)) = [(evt, p)]"
  by (simp add: super_emit_def emitted_callbacks)

lemma emit_error:
  "emit s ''error'' p = (s, fst (super_emit s ''error'' p), snd (super_emit s ''error'' p))"
  by (simp add: emit_def)

lemma fst_in_callback: "fst (in_callback r) = fst r"
  by (cases r) (simp add: in_callback_def split: completion.splits)

lemma emitted_in_callback: "emitted (snd (in_callback r)) = emitted (fst (snd r))"
  by (cases r) (simp add: in_callback_def emitted_append split: completion.splits)

subsection \<open>Facts about emit and destroy\<close>

lemma invoked_append: "invoked (xs @ ys) = invoked xs @ invoked ys"
  by (induction xs rule: invoked.induct) simp_all

lemma fst_emit: "fst (emit s evt p) = (if evt = ''finish'' then fst (destroy s) else s)"
  by (simp add: emit_def split_def Let_def)

lemma emitted_emit:
  "emitted (fst (snd (emit s evt p)))
     = (if evt = ''finish'' then (evt, p) # emitted (snd (destroy s)) else [(evt, p)])"
  by (simp add: emit_def split_def Let_def emitted_append emitted_callbacks emitted_super_emit)

lemma emit_finish_normal: "snd (snd (emit s ''finish'' p)) = Normal"
  by (simp add: emit_def split_def Let_def)

lemma fst_in_then: "fst (in_then r) = fst r"
  by (cases r) (simp add: in_then_def split: completion.splits)

lemma fst_emit_then:
  "fst (emit_then r evt arg)
     = (case snd (snd r) of Normal \<Rightarrow> fst (emit (fst r) evt (arg (fst r))) | Thrown err \<Rightarrow> fst r)"
  by (cases r) (simp add: emit_then_def split_def split: completion.splits)

lemma destroy_writeMode: "writeMode (fst (destroy s)) = None"
  by (simp add: destroy_def Let_def)

lemma listeners_destroy: "listeners (fst (destroy s)) = listeners s"
  by (simp add: destroy_def Let_def)

lemma listeners_emit: "listeners (fst (emit s evt p)) = listeners s"
  by (simp add: fst_emit listeners_destroy)

lemma fst_init: "fst (init s w env) = fst (init_try s w env)"
  by (simp add: init_def split_def Let_def fst_emit split: completion.splits)

subsection \<open>Strategy selection\<close>

text \<open>
  Claim C1. A write-mode instance whose declared size is below 500 MiB takes the memory
  strategy in \<^verbatim>\<open>init()\<close>, whatever the window offers and whatever the platform would
  answer, and \<^verbatim>\<open>init()\<close> emits one event, \<^verbatim>\<open>ready\<close>: no \<^verbatim>\<open>error\<close> event.
\<close>

theorem init_small_uses_memory:
  assumes "mode s = Some 1" and "fsize s = Some n" and "n < 500 * 1024 * 1024"
  shows "writeMode (fst (init s w env)) = Some Mem
       \<and> memoryStorage (fst (init s w env)) = Some []
       \<and> emitted (fst (snd (init s w env))) = [(''ready'', NoArgs)]
       \<and> snd (snd (init s w env)) = Resolved"
  using assms
  by (simp add: init_def init_try_def use_memory_def of_nullable_def emit_plain
      emitted_callbacks)

theorem init_small_uses_memory_witness:
  "mode (new_custom_file 1 sample_options sample_window ''0'') = Some 1
   \<and> fsize (new_custom_file 1 sample_options sample_window ''0'') = Some 10
   \<and> (10::nat) < 500 * 1024 * 1024
   \<and> writeMode mem_instance = Some Mem
   \<and> memoryStorage mem_instance = Some []
   \<and> emitted (fst (snd (init (new_custom_file 1 sample_options sample_window ''0'')
         sample_window Granted)))
       = [(''ready'', NoArgs)]"
  using init_small_uses_memory
    [of "new_custom_file 1 sample_options sample_window ''0''" 10 sample_window Granted]
  by (simp add: new_custom_file_def sample_options_def mem_instance_def)

text \<open>
  The file-system strategy needs \<^verbatim>\<open>window.TEMPORARY\<close> to be truthy: where the constant
  is 0, a write-mode instance takes the memory strategy whatever its size.
\<close>

lemma init_temporary_zero_uses_memory:
  assumes "mode s = Some 1" and "w_TEMPORARY w = Some 0"
  shows "writeMode (fst (init s w env)) = Some Mem"
  using assms
  by (simp add: fst_init init_try_def use_memory_def truthy_def fst_emit)

subsection \<open>once and on\<close>

lemma callbacks_count:
  "count_list (invoked (callbacks s evt p)) (cb, evt, p) = count_list (listeners s) (evt, cb)"
proof -
  have "count_list (invoked (map (\<lambda>l. Invoked (snd l) evt p) (filter (\<lambda>l. fst l = evt) ls)))
          (cb, evt, p) = count_list ls (evt, cb)" for ls
    by (induction ls) auto
  then show ?thesis by (simp add: callbacks_def)
qed

lemma callbacks_other:
  assumes "evt' \<noteq> evt"
  shows "count_list (invoked (callbacks s evt' q)) (cb, evt, p) = 0"
proof -
  have "count_list (invoked (map (\<lambda>l. Invoked (snd l) evt' q) ls)) (cb, evt, p) = 0" for ls
    using assms by (induction ls) auto
  then show ?thesis by (simp add: callbacks_def)
qed

lemma emit_count:
  "count_list (invoked (fst (snd (emit s evt p)))) (cb, evt, p)
     = count_list (listeners s) (evt, cb)"
proof (cases "evt = ''finish''")
  case True
  then show ?thesis
    by (simp add: emit_def split_def Let_def destroy_def super_emit_def invoked_append
        callbacks_other callbacks_count)
next
  case False
  show ?thesis
  proof (cases "evt = ''error'' \<and> callbacks s evt p = []")
    case True
    then have "count_list (invoked (callbacks s evt p)) (cb, evt, p) = 0"
      by auto
    then have "count_list (listeners s) (evt, cb) = 0"
      by (simp add: callbacks_count)
    with True False show ?thesis
      by (auto simp: emit_def super_emit_def)
  next
    case other: False
    with False show ?thesis
      by (auto simp: emit_def super_emit_def callbacks_count)
  qed
qed

lemma run_emits_count:
  "count_list (invoked (snd (run s (replicate n (Op_emit evt p))))) (cb, evt, p)
     = n * count_list (listeners s) (evt, cb)"
proof (induction n arbitrary: s)
  case 0
  show ?case by simp
next
  case (Suc n)
  show ?case
    using Suc.IH [of "fst (emit s evt p)"]
    by (simp add: split_def invoked_append emit_count listeners_emit)
qed

text \<open>
  Claim C9. \<^verbatim>\<open>once(event, callback)\<close> leaves the object in the state \<^verbatim>\<open>on(event, callback)\<close>
  leaves it in, and the callback is not dropped after its first call: over \<open>n\<close> emissions of
  the event it is invoked at each one, once for each time it is registered (the new
  registration and those the object already had).
\<close>

theorem once_registers_like_on:
  "once s evt cb = on s evt cb
   \<and> count_list (invoked (snd (run (once s evt cb) (replicate n (Op_emit evt p))))) (cb, evt, p)
       = n * Suc (count_list (listeners s) (evt, cb))"
  by (simp add: run_emits_count once_def on_def super_on_def)

subsection \<open>The file system is set whenever the file-system strategy is\<close>

lemma emit_fs_inv:
  "(writeMode s = Some Fs \<longrightarrow> fs s) \<Longrightarrow>
   (writeMode (fst (emit s evt p)) = Some Fs \<longrightarrow> fs (fst (emit s evt p)))"
  by (simp add: fst_emit destroy_writeMode)

lemma writer_fires_frame:
  "writeMode (fst (writer_fires b evs (s, tr, p))) = writeMode s
   \<and> fs (fst (writer_fires b evs (s, tr, p))) = fs s"
proof (induction evs arbitrary: s tr p)
  case Nil
  show ?case by simp
next
  case (Cons e evs)
  show ?case
  proof (cases e)
    case WriteEnd
    then show ?thesis
      using Cons.IH by (simp add: onwriteend_def Let_def emit_plain)
  next
    case (WriteError err)
    then show ?thesis
      using Cons.IH by (simp add: onerror_def)
  qed
qed

lemma fst_write_chunk:
  "fst (write_chunk s c env)
     = (case writeMode s of
          None \<Rightarrow> s
        | Some Mem \<Rightarrow> fst (writeMem s c)
        | Some Fs \<Rightarrow> fst (writeFs s c env))"
  by (simp add: write_chunk_def split_def Let_def fst_emit
      split: option.splits write_mode.splits completion.splits)

lemma write_chunk_fs_inv:
  assumes "writeMode s = Some Fs \<longrightarrow> fs s"
  shows "writeMode (fst (write_chunk s c env)) = Some Fs \<longrightarrow> fs (fst (write_chunk s c env))"
  using assms
  by (auto simp: fst_write_chunk writeMem_def writeFs_def emit_plain Let_def writer_fires_frame
      split: option.splits write_mode.splits fs_write_env.splits)

lemma read_fs_inv:
  assumes "writeMode s = Some Fs \<longrightarrow> fs s"
  shows "writeMode (fst (read s c env)) = Some Fs \<longrightarrow> fs (fst (read s c env))"
  using assms
  by (auto simp: read_def stream_callback_def emit_then_def emit_plain fst_emit fst_in_then
      Let_def split_def split: option.splits stream_result.splits)

lemma remove_fs_inv:
  assumes "writeMode s = Some Fs \<longrightarrow> fs s"
  shows "writeMode (fst (remove s env)) = Some Fs \<longrightarrow> fs (fst (remove s env))"
  using assms
  by (auto simp: remove_def split_def fst_emit fst_in_callback emit_finish_normal
      destroy_writeMode split: option.splits write_mode.splits remove_env.splits)

lemma save_state: "fst (save s w cb) = s"
  by (simp add: save_def split: option.splits write_mode.splits)

lemma init_fs_inv:
  assumes "writeMode s = Some Fs \<longrightarrow> fs s"
  shows "writeMode (fst (init s w env)) = Some Fs \<longrightarrow> fs (fst (init s w env))"
  using assms
  by (auto simp: fst_init init_try_def use_memory_def fst_emit fst_in_callback Let_def
      split_def split: option.splits init_env.splits)

lemma exec_fs_inv:
  assumes "writeMode s = Some Fs \<longrightarrow> fs s"
  shows "writeMode (fst (exec s x)) = Some Fs \<longrightarrow> fs (fst (exec s x))"
proof (cases x)
  case (Op_init w env)
  then show ?thesis using init_fs_inv [OF assms, of w env] by (simp add: split_def)
next
  case (Op_write c env)
  then show ?thesis using write_chunk_fs_inv [OF assms, of c env] by (simp add: split_def)
next
  case (Op_read c env)
  then show ?thesis using read_fs_inv [OF assms, of c env] by (simp add: split_def)
next
  case (Op_save w cb env)
  then show ?thesis
    using remove_fs_inv [OF assms, of env] save_state [of s w cb] assms
    by (cases "save s w cb") (auto simp: split_def)
next
  case (Op_remove env)
  then show ?thesis using remove_fs_inv [OF assms, of env] by (simp add: split_def)
next
  case Op_destroy
  then show ?thesis by (simp add: destroy_writeMode)
next
  case (Op_on evt cb)
  then show ?thesis using assms by (simp add: on_def super_on_def)
next
  case (Op_once evt cb)
  then show ?thesis using assms by (simp add: once_def super_on_def)
next
  case (Op_emit evt p)
  then show ?thesis using emit_fs_inv [OF assms, of evt p] by (simp add: split_def)
qed

lemma run_fs_inv:
  "(writeMode s = Some Fs \<longrightarrow> fs s) \<Longrightarrow>
   (writeMode (fst (run s xs)) = Some Fs \<longrightarrow> fs (fst (run s xs)))"
proof (induction xs arbitrary: s)
  case Nil
  then show ?case by simp
next
  case (Cons x xs)
  from exec_fs_inv [OF Cons.prems, of x]
  have "writeMode (fst (run (fst (exec s x)) xs)) = Some Fs
          \<longrightarrow> fs (fst (run (fst (exec s x)) xs))"
    by (rule Cons.IH)
  then show ?case by (simp add: split_def)
qed

lemma reachable_fs_inv:
  "writeMode (fst (run (new_custom_file m opts w stamp) xs)) = Some Fs \<longrightarrow>
   fs (fst (run (new_custom_file m opts w stamp) xs))"
  by (rule run_fs_inv) (simp add: new_custom_file_def)

lemma remove_promise_general:
  assumes "writeMode s = Some Fs \<longrightarrow> fs s"
  shows "snd (snd (remove s env))
           = (if writeMode s = Some Fs \<and> env = Removed then Resolved else Pending)
       \<and> (writeMode s = Some Mem \<longrightarrow>
            (''finish'', NoArgs) \<in> set (emitted (fst (snd (remove s env)))))
       \<and> (writeMode s = Some Fs \<longrightarrow>
            (\<forall>err. env = GetFileError err \<or> env = RemoveError err \<longrightarrow>
               emitted (fst (snd (remove s env))) = [(''error'', ErrorArg err)]))
       \<and> (writeMode s = None \<longrightarrow> fst (snd (remove s env)) = [])"
  using assms
  by (auto simp: remove_def split_def Let_def emitted_emit emit_finish_normal
      emitted_in_callback split: option.splits write_mode.splits remove_env.splits)

subsection \<open>The promise of remove\<close>

text \<open>
  Claim C10. On every instance (the object after any sequence of calls since its
  construction), the promise that \<^verbatim>\<open>remove()\<close> returns is resolved exactly when the
  file-system strategy is set and the entry was deleted. In every other case it stays
  pending, neither resolved nor rejected: on the memory strategy, which does emit
  \<^verbatim>\<open>finish\<close>; on the two failure callbacks of the file-system path, which emit \<^verbatim>\<open>error\<close> and
  nothing else; and with no write mode set, where the call does nothing.
\<close>

theorem remove_promise_resolves_only_on_deletion:
  fixes m opts w stamp xs
  defines "s \<equiv> fst (run (new_custom_file m opts w stamp) xs)"
  shows "snd (snd (remove s env))
           = (if writeMode s = Some Fs \<and> env = Removed then Resolved else Pending)
       \<and> (writeMode s = Some Mem \<longrightarrow>
            (''finish'', NoArgs) \<in> set (emitted (fst (snd (remove s env)))))
       \<and> (writeMode s = Some Fs \<longrightarrow>
            (\<forall>err. env = GetFileError err \<or> env = RemoveError err \<longrightarrow>
               emitted (fst (snd (remove s env))) = [(''error'', ErrorArg err)]))
       \<and> (writeMode s = None \<longrightarrow> fst (snd (remove s env)) = [])"
  unfolding s_def by (rule remove_promise_general) (rule reachable_fs_inv)

theorem remove_promise_resolves_only_on_deletion_witness:
  "writeMode mem_instance = Some Mem
   \<and> snd (snd (remove mem_instance Removed)) = Pending
   \<and> (''finish'', NoArgs) \<in> set (emitted (fst (snd (remove mem_instance Removed))))
   \<and> writeMode fs_instance = Some Fs
   \<and> snd (snd (remove fs_instance Removed)) = Resolved
   \<and> snd (snd (remove fs_instance (GetFileError (PlatformError ''NotFoundError'')))) = Pending
   \<and> emitted (fst (snd (remove fs_instance (GetFileError (PlatformError ''NotFoundError'')))))
       = [(''error'', ErrorArg (PlatformError ''NotFoundError''))]
   \<and> writeMode (new_custom_file 1 sample_options sample_window ''0'') = None
   \<and> remove (new_custom_file 1 sample_options sample_window ''0'') Removed
       = (new_custom_file 1 sample_options sample_window ''0'', [], Pending)"
proof -
  have m: "mem_instance
      = fst (run (new_custom_file 1 sample_options sample_window ''0'')
          [Op_init sample_window Granted])"
    by (simp add: mem_instance_def split_def)
  have f: "fs_instance
      = fst (run (new_custom_file 1 large_options sample_window ''0'')
          [Op_init sample_window Granted])"
    by (simp add: fs_instance_def split_def)
  have n: "new_custom_file 1 sample_options sample_window ''0''
      = fst (run (new_custom_file 1 sample_options sample_window ''0'') [])"
    by simp
  have wm: "writeMode mem_instance = Some Mem"
    by (simp add: mem_instance_def new_custom_file_def sample_options_def fst_init
        init_try_def use_memory_def of_nullable_def fst_emit)
  have wf: "writeMode fs_instance = Some Fs"
    by (simp add: fs_instance_def new_custom_file_def large_options_def sample_window_def
        fst_init init_try_def of_nullable_def truthy_def fst_in_callback fst_emit
        Let_def split_def)
  have wn: "writeMode (new_custom_file 1 sample_options sample_window ''0'') = None"
    by (simp add: new_custom_file_def)
  note r1 = remove_promise_resolves_only_on_deletion
    [of 1 sample_options sample_window "''0''" "[Op_init sample_window Granted]" Removed,
     folded m]
  note r2 = remove_promise_resolves_only_on_deletion
    [of 1 large_options sample_window "''0''" "[Op_init sample_window Granted]" Removed,
     folded f]
  note r3 = remove_promise_resolves_only_on_deletion
    [of 1 large_options sample_window "''0''" "[Op_init sample_window Granted]"
       "GetFileError (PlatformError ''NotFoundError'')", folded f]
  note r4 = remove_promise_resolves_only_on_deletion
    [of 1 sample_options sample_window "''0''" "[]" Removed, folded n]
  have "remove (new_custom_file 1 sample_options sample_window ''0'') Removed
       = (new_custom_file 1 sample_options sample_window ''0'', [], Pending)"
    using wn by (simp add: remove_def)
  then show ?thesis
    using r1 r2 r3 r4 wm wf wn by simp
qed

subsection \<open>Appending on the memory strategy\<close>

lemma writeMem_step:
  assumes "memoryStorage s = Some ms" and "bytesWritten s = Num (of_nat b)"
    and "has_size c"
  shows "writeMem s c =
           (s\<lparr>memoryStorage := Some (ms @ [c]),
              bytesWritten := Num (of_nat (b + length (chunk_bytes c)))\<rparr>,
            Emitted ''progress''
              (NumberArg (js_div (Num (of_nat (Suc (length ms)))) (of_nullable (pieces s))))
            # callbacks s ''progress''
                (NumberArg (js_div (Num (of_nat (Suc (length ms)))) (of_nullable (pieces s)))),
            Resolved)"
  using assms
  by (cases c)
    (simp_all add: writeMem_def Let_def emit_plain callbacks_def promise_of_def has_size_def
      chunk_get_def chunk_bytes_def to_number_def blob_size_def)

text \<open>
  With chunks that are blobs the memory strategy counts bytes: on an instance that has
  just taken it, after \<open>N\<close> appends \<^verbatim>\<open>bytesWritten\<close> is the sum of the byte lengths of the
  chunks. Whatever the chunks are, the appends emit \<open>N\<close> \<^verbatim>\<open>progress\<close> events and nothing
  else, the \<open>i\<close>-th with the value \<open>i / pieces\<close>.
\<close>

lemma mem_appends:
  assumes "writeMode s = Some Mem" and "memoryStorage s = Some ms"
    and "bytesWritten s = Num (of_nat b)" and "list_all (\<lambda>ce. has_size (fst ce)) ces"
  shows "bytesWritten (fst (run s (map (\<lambda>ce. Op_write (fst ce) (snd ce)) ces)))
           = Num (of_nat (b + sum_list (map (\<lambda>ce. length (chunk_bytes (fst ce))) ces)))
       \<and> emitted (snd (run s (map (\<lambda>ce. Op_write (fst ce) (snd ce)) ces)))
           = map (\<lambda>i. (''progress'', NumberArg (js_div (Num (of_nat i)) (of_nullable (pieces s)))))
               [Suc (length ms) ..< Suc (length ms + length ces)]"
  using assms
proof (induction ces arbitrary: s ms b)
  case Nil
  then show ?case by simp
next
  case (Cons ce ces)
  let ?s1 = "s\<lparr>memoryStorage := Some (ms @ [fst ce]),
                 bytesWritten := Num (of_nat (b + length (chunk_bytes (fst ce))))\<rparr>"
  have step: "write_chunk s (fst ce) (snd ce) =
      (?s1, Emitted ''progress''
              (NumberArg (js_div (Num (of_nat (Suc (length ms)))) (of_nullable (pieces s))))
            # callbacks s ''progress''
                (NumberArg (js_div (Num (of_nat (Suc (length ms)))) (of_nullable (pieces s)))),
       Inr Resolved)"
    using Cons.prems by (simp add: write_chunk_def writeMem_step)
  have ih: "bytesWritten (fst (run ?s1 (map (\<lambda>ce. Op_write (fst ce) (snd ce)) ces)))
           = Num (of_nat (b + length (chunk_bytes (fst ce))
                           + sum_list (map (\<lambda>ce. length (chunk_bytes (fst ce))) ces)))
       \<and> emitted (snd (run ?s1 (map (\<lambda>ce. Op_write (fst ce) (snd ce)) ces)))
           = map (\<lambda>i. (''progress'', NumberArg (js_div (Num (of_nat i)) (of_nullable (pieces ?s1)))))
               [Suc (length (ms @ [fst ce])) ..< Suc (length (ms @ [fst ce]) + length ces)]"
    by (rule Cons.IH) (use Cons.prems in simp_all)
  have upt: "[Suc (length ms) ..< Suc (Suc (length ms + length ces))]
      = Suc (length ms) # [Suc (Suc (length ms)) ..< Suc (Suc (length ms + length ces))]"
    by (rule upt_conv_Cons) simp
  show ?case
    using ih
    by (simp add: step split_def emitted_append emitted_callbacks upt add.assoc del: upt_Suc)
qed

lemma mem_append_blobs:
  assumes "writeMode s = Some Mem" and "memoryStorage s = Some []"
    and "bytesWritten s = Num 0" and "list_all (\<lambda>ce. has_size (fst ce)) ces"
  shows "bytesWritten (fst (run s (map (\<lambda>ce. Op_write (fst ce) (snd ce)) ces)))
           = Num (of_nat (sum_list (map (\<lambda>ce. length (chunk_bytes (fst ce))) ces)))
       \<and> emitted (snd (run s (map (\<lambda>ce. Op_write (fst ce) (snd ce)) ces)))
           = map (\<lambda>i. (''progress'', NumberArg (js_div (Num (of_nat i)) (of_nullable (pieces s)))))
               [1 ..< Suc (length ces)]"
  using mem_appends [of s "[]" 0 ces] assms by simp

lemma mem_append_progress:
  assumes "writeMode s = Some Mem" and "memoryStorage s = Some ms"
  shows "emitted (fst (snd (write_chunk s c env)))
           = [(''progress'',
               NumberArg (js_div (Num (of_nat (Suc (length ms)))) (of_nullable (pieces s))))]"
  using assms
  by (simp add: write_chunk_def writeMem_def Let_def split_def emit_plain emitted_callbacks)

text \<open>
  Claim C3. The claim asks that after the appends \<^verbatim>\<open>bytesWritten\<close> is the sum of the byte
  lengths of the chunks. \<^verbatim>\<open>_writeMem\<close> adds \<^verbatim>\<open>chunk.size\<close>, which a \<^verbatim>\<open>Uint8Array\<close> does not
  have: on the sample memory instance one append of a \<^verbatim>\<open>Uint8Array\<close> of five bytes leaves
  \<^verbatim>\<open>bytesWritten\<close> at NaN instead of 5. The progress event is as the claim says, 1 / 2.
  On the file-system strategy the same chunk is counted, through the size of the blob
  built from it.
\<close>

theorem mem_append_buffer_gives_nan:
  "writeMode mem_instance = Some Mem
   \<and> bytesWritten mem_instance = Num 0
   \<and> bytesWritten (fst (write_chunk mem_instance sample_buffer NoWriter)) = NaN
   \<and> emitted (fst (snd (write_chunk mem_instance sample_buffer NoWriter)))
       = [(''progress'', NumberArg (Num (1 / 2)))]
   \<and> bytesWritten (fst (write_chunk fs_instance sample_buffer (WriterFires [WriteEnd]))) = Num 5"
  by (simp add: mem_instance_def fs_instance_def new_custom_file_def sample_options_def
      large_options_def sample_window_def init_def init_try_def in_callback_def use_memory_def
      of_nullable_def truthy_def emit_plain sample_buffer_def write_chunk_def writeMem_def
      writeFs_def onwriteend_def Let_def split_def chunk_get_def chunk_bytes_def
      uint8array_get_def to_number_def blob_size_def emitted_callbacks callbacks_def)

subsection \<open>Appending on the file-system strategy\<close>

lemma writer_fires_prefix:
  assumes "4 \<le> length tr"
  shows "take 4 (fst (snd (writer_fires b evs (s, tr, p)))) = take 4 tr"
  using assms
proof (induction evs arbitrary: s tr p)
  case Nil
  then show ?case by simp
next
  case (Cons e evs)
  show ?case
  proof (cases e)
    case WriteEnd
    obtain s1 tr1 p1 where ow: "onwriteend b (s, tr, p) = (s1, tr @ tr1, p1)"
      by (simp add: onwriteend_def Let_def emit_plain)
    with WriteEnd show ?thesis
      using Cons.IH [of "tr @ tr1" s1 p1] Cons.prems by simp
  next
    case (WriteError err)
    then show ?thesis
      using Cons.IH [of tr] Cons.prems by (simp add: onerror_def)
  qed
qed

text \<open>
  On the file-system strategy an append opens the entry, takes a writer, seeks it to the
  value \<^verbatim>\<open>bytesWritten\<close> has when the append is called, and only then writes the blob built
  from the chunk, whatever the writer reports afterwards. When the writer fires
  \<^verbatim>\<open>writeend\<close> alone, \<^verbatim>\<open>bytesWritten\<close> grows by the byte length of the chunk, one
  \<^verbatim>\<open>progress\<close> event carries the new \<^verbatim>\<open>bytesWritten\<close> divided by the declared size, and the
  promise resolves. When the writer fires \<^verbatim>\<open>error\<close> alone, or \<^verbatim>\<open>getFile\<close> fails, the promise
  is rejected with that error, \<^verbatim>\<open>bytesWritten\<close> is unchanged and nothing is emitted.
\<close>

lemma fs_append_general:
  assumes "writeMode s = Some Fs" and "fs s"
  shows "take 4 (fst (snd (write_chunk s c (WriterFires evs))))
           = [GetFile (localName s) (create s), CreateWriter, Seek (bytesWritten s),
              WriterWrite \<lparr>bytes = chunk_bytes c, btype = content_type (ftype s)\<rparr>]
       \<and> bytesWritten (fst (write_chunk s c (WriterFires [WriteEnd])))
           = js_add (bytesWritten s) (Num (of_nat (length (chunk_bytes c))))
       \<and> emitted (fst (snd (write_chunk s c (WriterFires [WriteEnd]))))
           = [(''progress'',
               NumberArg (js_div (bytesWritten (fst (write_chunk s c (WriterFires [WriteEnd]))))
                            (of_nullable (fsize s))))]
       \<and> snd (snd (write_chunk s c (WriterFires [WriteEnd]))) = Inr Resolved
       \<and> snd (snd (write_chunk s c (WriterFires [WriteError err]))) = Inr (Rejected err)
       \<and> bytesWritten (fst (write_chunk s c (WriterFires [WriteError err]))) = bytesWritten s
       \<and> emitted (fst (snd (write_chunk s c (WriterFires [WriteError err])))) = []
       \<and> snd (snd (write_chunk s c (GetFileFails err))) = Inr (Rejected err)
       \<and> bytesWritten (fst (write_chunk s c (GetFileFails err))) = bytesWritten s
       \<and> emitted (fst (snd (write_chunk s c (GetFileFails err)))) = []"
  using assms
  by (simp add: write_chunk_def writeFs_def Let_def split_def writer_fires_prefix
      onwriteend_def onerror_def settle_def emit_plain emitted_callbacks blob_size_def)

text \<open>
  The handler of \<^verbatim>\<open>writeend\<close> does not look at how the write ended, and a writer fires
  \<^verbatim>\<open>writeend\<close> at the end of a write that failed as well, after \<^verbatim>\<open>error\<close>. The promise is
  then rejected, and \<^verbatim>\<open>bytesWritten\<close> advanced and \<^verbatim>\<open>progress\<close> emitted all the same.
\<close>

lemma fs_append_error_then_writeend:
  assumes "writeMode s = Some Fs" and "fs s"
  shows "snd (snd (write_chunk s c (WriterFires [WriteError err, WriteEnd])))
           = Inr (Rejected err)
       \<and> bytesWritten (fst (write_chunk s c (WriterFires [WriteError err, WriteEnd])))
           = js_add (bytesWritten s) (Num (of_nat (length (chunk_bytes c))))
       \<and> emitted (fst (snd (write_chunk s c (WriterFires [WriteError err, WriteEnd]))))
           = [(''progress'',
               NumberArg (js_div (js_add (bytesWritten s) (Num (of_nat (length (chunk_bytes c)))))
                            (of_nullable (fsize s))))]"
  using assms
  by (simp add: write_chunk_def writeFs_def Let_def split_def onwriteend_def onerror_def
      settle_def emit_plain emitted_callbacks blob_size_def)

text \<open>
  Claim C4. The claim asks that a failed write leaves \<^verbatim>\<open>bytesWritten\<close> where it was. On
  the sample file-system instance (600 MiB declared, nothing written) an append of five
  bytes seeks the writer to 0 and writes; the writer reports the failure as it does,
  \<^verbatim>\<open>error\<close> then \<^verbatim>\<open>writeend\<close>. The promise is rejected with the error, as the claim says,
  and yet \<^verbatim>\<open>bytesWritten\<close> goes from 0 to 5 and a \<^verbatim>\<open>progress\<close> event is emitted.
\<close>

theorem fs_append_failed_write_counts:
  "writeMode fs_instance = Some Fs
   \<and> bytesWritten fs_instance = Num 0
   \<and> take 4 (fst (snd (write_chunk fs_instance sample_chunk
        (WriterFires [WriteError (PlatformError ''quota''), WriteEnd]))))
       = [GetFile (Some ''0-b.bin'') True, CreateWriter, Seek (Num 0),
          WriterWrite \<lparr>bytes = [1, 2, 3, 4, 5], btype = ''application/octet-stream''\<rparr>]
   \<and> snd (snd (write_chunk fs_instance sample_chunk
        (WriterFires [WriteError (PlatformError ''quota''), WriteEnd])))
       = Inr (Rejected (PlatformError ''quota''))
   \<and> bytesWritten (fst (write_chunk fs_instance sample_chunk
        (WriterFires [WriteError (PlatformError ''quota''), WriteEnd]))) = Num 5
   \<and> emitted (fst (snd (write_chunk fs_instance sample_chunk
        (WriterFires [WriteError (PlatformError ''quota''), WriteEnd]))))
       = [(''progress'', NumberArg (Num (5 / 629145600)))]"
  by (simp add: fs_instance_def new_custom_file_def large_options_def sample_window_def
      init_def init_try_def in_callback_def of_nullable_def truthy_def emit_plain
      sample_chunk_def write_chunk_def writeFs_def onwriteend_def onerror_def settle_def
      Let_def split_def chunk_bytes_def content_type_def blob_size_def emitted_callbacks
      callbacks_def)

subsection \<open>Reading from the stream\<close>

lemma js_add_NaN: "js_add x NaN = NaN"
  by (cases x) simp_all

lemma js_div_NaN: "js_div NaN y = NaN"
  by (cases y) simp_all

text \<open>
  On any instance with a read stream: at the end of the stream the call emits \<^verbatim>\<open>data\<close>
  with \<^verbatim>\<open>null\<close> and nothing else, and \<^verbatim>\<open>bytesRead\<close> stays (the callback then throws on
  \<^verbatim>\<open>value.bytesLenght\<close>, \<^verbatim>\<open>value\<close> being undefined). On a block the callback adds
  \<^verbatim>\<open>value.bytesLenght\<close>, a property a \<^verbatim>\<open>Uint8Array\<close> does not have: \<^verbatim>\<open>bytesRead\<close> becomes
  NaN, and so does the progress ratio.
\<close>

lemma stream_read_general:
  assumes "readStream s"
  shows "bytesRead (fst (read s False (StreamBlock v))) = NaN
       \<and> emitted (fst (snd (read s False (StreamBlock v))))
           = [(''data'', DataArg (Block v)), (''progress'', NumberArg NaN)]
       \<and> emitted (fst (snd (read s False StreamDone))) = [(''data'', DataArg Null)]
       \<and> bytesRead (fst (read s False StreamDone)) = bytesRead s"
  using assms
  by (simp add: read_def stream_callback_def emit_then_def in_then_def Let_def split_def
      emit_plain emitted_append emitted_callbacks uint8array_get_def to_number_def
      js_add_NaN js_div_NaN)

text \<open>
  Claim C6. The claim asks that a stream-mode read which yields a block advances
  \<^verbatim>\<open>bytesRead\<close> by the byte length of the block and emits that count over the declared size.
  On the sample reader (ten bytes declared, \<^verbatim>\<open>init()\<close> done, nothing read) a block of four
  bytes leaves \<^verbatim>\<open>bytesRead\<close> at NaN instead of 4, and the progress event carries NaN
  instead of 4 / 10.
\<close>

theorem stream_read_block_gives_nan:
  "readStream read_instance
   \<and> bytesRead read_instance = Num 0
   \<and> bytesRead (fst (read read_instance False (StreamBlock [1, 2, 3, 4]))) = NaN
   \<and> emitted (fst (snd (read read_instance False (StreamBlock [1, 2, 3, 4]))))
       = [(''data'', DataArg (Block [1, 2, 3, 4])), (''progress'', NumberArg NaN)]"
  by (simp add: read_instance_def new_custom_file_def sample_options_def init_def
      init_try_def read_def stream_callback_def emit_then_def in_then_def Let_def
      split_def emit_plain emitted_append emitted_callbacks uint8array_get_def
      to_number_def)

subsection \<open>After destroy\<close>

text \<open>
  With no write mode set, \<^verbatim>\<open>write\<close> changes nothing and emits \<^verbatim>\<open>error\<close>; it returns a
  resolved promise when a callback is registered for \<^verbatim>\<open>error\<close>, and throws the error
  when none is.
\<close>

lemma write_without_mode:
  assumes "writeMode s = None"
  shows "fst (write_chunk s c env) = s
       \<and> emitted (fst (snd (write_chunk s c env)))
           = [(''error'', ErrorArg (Error ''No write mode set.''))]
       \<and> snd (snd (write_chunk s c env))
           = (if callbacks s ''error'' (ErrorArg (Error ''No write mode set.'')) = []
              then Inl (Error ''No write mode set.'') else Inr Resolved)"
  using assms
  by (simp add: write_chunk_def emit_error super_emit_def emitted_callbacks)

text \<open>
  After \<^verbatim>\<open>destroy()\<close> both counters are 0, and \<^verbatim>\<open>write\<close>, a chunked \<^verbatim>\<open>read\<close>, \<^verbatim>\<open>save\<close> and
  \<^verbatim>\<open>remove\<close> leave the object as it is and emit no \<^verbatim>\<open>progress\<close>: \<^verbatim>\<open>write\<close> emits the error
  of a missing write mode, the chunked \<^verbatim>\<open>read\<close> the end of the data, the other two
  nothing.
\<close>

lemma after_destroy_other_calls:
  "bytesWritten (fst (destroy s)) = Num 0 \<and> bytesRead (fst (destroy s)) = Num 0
   \<and> fst (write_chunk (fst (destroy s)) c wenv) = fst (destroy s)
   \<and> emitted (fst (snd (write_chunk (fst (destroy s)) c wenv)))
       = [(''error'', ErrorArg (Error ''No write mode set.''))]
   \<and> fst (read (fst (destroy s)) True renv) = fst (destroy s)
   \<and> emitted (fst (snd (read (fst (destroy s)) True renv))) = [(''data'', DataArg Null)]
   \<and> save (fst (destroy s)) w cb = (fst (destroy s), [], Normal, False)
   \<and> remove (fst (destroy s)) env = (fst (destroy s), [], Pending)"
  by (simp add: fst_write_chunk destroy_writeMode)
    (simp add: destroy_def Let_def write_chunk_def read_def save_def remove_def
      of_nullable_def emit_plain emitted_callbacks emitted_emit split_def
      split: completion.splits)

text \<open>
  Claim C8. The claim asks that after \<^verbatim>\<open>destroy()\<close> no call changes \<^verbatim>\<open>bytesRead\<close> or emits
  \<^verbatim>\<open>progress\<close>. \<^verbatim>\<open>destroy()\<close> does not clear \<^verbatim>\<open>_readStream\<close>: on the sample reader, destroyed
  after \<^verbatim>\<open>init()\<close>, a stream-mode read that yields a block takes \<^verbatim>\<open>bytesRead\<close> from 0 to
  NaN and emits a \<^verbatim>\<open>progress\<close> event.
\<close>

theorem stream_read_after_destroy_counts:
  "destroyed (fst (destroy read_instance))
   \<and> bytesRead (fst (destroy read_instance)) = Num 0
   \<and> bytesRead (fst (read (fst (destroy read_instance)) False (StreamBlock [1, 2, 3, 4]))) = NaN
   \<and> emitted (fst (snd (read (fst (destroy read_instance)) False (StreamBlock [1, 2, 3, 4]))))
       = [(''data'', DataArg (Block [1, 2, 3, 4])), (''progress'', NumberArg NaN)]"
  by (simp add: read_instance_def new_custom_file_def sample_options_def init_def
      init_try_def destroy_def read_def stream_callback_def emit_then_def in_then_def
      Let_def split_def emit_plain emitted_append emitted_callbacks uint8array_get_def
      to_number_def)

subsection \<open>Removing twice\<close>




subsection \<open>Reading in chunks\<close>

lemma round_half_even_of_nat: "round_half_even (of_nat n) = int n"
  by (simp add: round_half_even_def)

lemma to_index_of_nat: "to_index (Num (of_nat n)) sz = min n sz"
  by (simp add: to_index_def round_half_even_of_nat)

lemma read_piece:
  assumes "nativeFile s = Some f" and "blob_size f = S" and "fsize s = Some S"
    and "pieceLength s = Some L" and "bytesRead s = Num (of_nat r)" and "r < S"
  shows "fst (read s True env) = s\<lparr>bytesRead := Num (of_nat (min (r + L) S))\<rparr>
       \<and> emitted (fst (snd (read s True env)))
           = [(''data'', DataArg (BlobData
                \<lparr>bytes = take (min (r + L) S - r) (drop r (bytes f)),
                 btype = content_type (ftype s)\<rparr>)),
              (''progress'', NumberArg (js_div (Num (of_nat (min (r + L) S))) (Num (of_nat S))))]"
proof -
  have stop: "js_min (js_add (bytesRead s) (of_nullable (pieceLength s))) (of_nullable (fsize s))
      = Num (of_nat (min (r + L) S))"
    using assms by (simp add: of_nullable_def of_nat_min)
  have sl: "blob_slice f (Num (of_nat r)) (Num (of_nat (min (r + L) S))) (ftype s)
      = \<lparr>bytes = take (min (r + L) S - r) (drop r (bytes f)),
           btype = content_type (ftype s)\<rparr>"
    using assms by (simp add: blob_slice_def Let_def to_index_of_nat min_def)
  have sz: "blob_size \<lparr>bytes = take (min (r + L) S - r) (drop r (bytes f)),
           btype = content_type (ftype s)\<rparr>
      = min (r + L) S - r"
    using assms by (auto simp: blob_size_def min_def)
  have adv: "js_add (Num (of_nat r)) (Num (of_nat (min (r + L) S - r)))
      = Num (of_nat (min (r + L) S))"
    using assms by (simp add: min_def flip: of_nat_add)
  have lt: "js_lt (bytesRead s) (of_nullable (fsize s))"
    using assms by (simp add: of_nullable_def)
  have sl': "blob_slice f (bytesRead s)
        (js_min (js_add (bytesRead s) (of_nullable (pieceLength s))) (of_nullable (fsize s)))
        (ftype s)
      = \<lparr>bytes = take (min (r + L) S - r) (drop r (bytes f)),
           btype = content_type (ftype s)\<rparr>"
    using sl stop assms(5) by simp
  have adv': "js_add (bytesRead s)
        (Num (of_nat (blob_size
           \<lparr>bytes = take (min (r + L) S - r) (drop r (bytes f)),
           btype = content_type (ftype s)\<rparr>)))
      = Num (of_nat (min (r + L) S))"
    using adv sz assms(5) by simp
  have fs: "of_nullable (fsize s) = Num (of_nat S)"
    using assms(3) by (simp add: of_nullable_def)
  show ?thesis
    unfolding read_def
    by (simp only: lt sl' adv' assms(1) if_True option.case Let_def)
      (simp add: emit_then_def split_def emit_plain emitted_append emitted_callbacks fs)
qed

lemma read_exhausted:
  assumes "fsize s = Some S" and "bytesRead s = Num (of_nat S)"
  shows "fst (read s True env) = s
       \<and> emitted (fst (snd (read s True env))) = [(''data'', DataArg Null)]"
  using assms
  by (simp add: read_def of_nullable_def emit_plain emitted_callbacks)

lemma pieces_left:
  fixes L r S :: nat
  assumes "0 < L" and "r < S"
  shows "(S - r + L - 1) div L = Suc ((S - min (r + L) S + L - 1) div L)"
proof (cases "r + L \<le> S")
  case True
  define k where "k = S - min (r + L) S + L - 1"
  have a: "S - r + L - 1 = k + L"
    using assms True by (simp add: k_def min_def)
  have "(k + L) div L = Suc (k div L)"
    using assms(1) by simp
  then show ?thesis
    by (simp only: a k_def)
next
  case False
  define j where "j = S - r - 1"
  have a: "S - r + L - 1 = j + L"
    using assms by (simp add: j_def)
  have j: "j < L"
    using False assms by (simp add: j_def)
  have b: "S - min (r + L) S + L - 1 = L - 1"
    using False by (simp add: min_def)
  have "(j + L) div L = Suc (j div L)"
    using assms(1) by simp
  moreover have "j div L = 0" and "(L - 1) div L = 0"
    using j assms(1) by simp_all
  ultimately show ?thesis
    by (simp only: a b)
qed

lemma read_all_from:
  assumes P: "P = (\<lambda>a.
               [(''data'', DataArg (BlobData
                  \<lparr>bytes = take (min (a + L) S - a) (drop a (bytes f)), btype = ty\<rparr>)),
                (''progress'', NumberArg (js_div (Num (of_nat (min (a + L) S))) (Num (of_nat S))))])"
    and "nativeFile s = Some f" and "blob_size f = S" and "fsize s = Some S"
    and "pieceLength s = Some L" and "0 < L" and "content_type (ftype s) = ty"
    and "bytesRead s = Num (of_nat r)" and "r \<le> S"
    and "n = (S - r + L - 1) div L"
  shows "bytesRead (fst (run s (replicate (Suc n) (Op_read True env)))) = Num (of_nat S)
       \<and> emitted (snd (run s (replicate (Suc n) (Op_read True env))))
           = concat (map (\<lambda>i. P (r + i * L)) [0 ..< n]) @ [(''data'', DataArg Null)]"
  using assms(2-)
proof (induction n arbitrary: s r)
  case 0
  then have "S - r + L - 1 < L"
    by (metis div_eq_0_iff less_numeral_extra(3))
  with 0 have "r = S" by simp
  with 0 show ?case
    using read_exhausted [of s S env] by (simp add: split_def)
next
  case (Suc n)
  have lt: "r < S"
  proof (rule ccontr)
    assume "\<not> r < S"
    with Suc.prems have "(S - r + L - 1) div L = 0" by simp
    with Suc.prems show False by simp
  qed
  let ?r' = "min (r + L) S"
  let ?s1 = "s\<lparr>bytesRead := Num (of_nat ?r')\<rparr>"
  have "fst (read s True env) = ?s1
       \<and> emitted (fst (snd (read s True env)))
           = [(''data'', DataArg (BlobData
                \<lparr>bytes = take (?r' - r) (drop r (bytes f)),
                 btype = content_type (ftype s)\<rparr>)),
              (''progress'', NumberArg (js_div (Num (of_nat ?r')) (Num (of_nat S))))]"
    using Suc.prems lt by (intro read_piece) simp_all
  then have step: "fst (read s True env) = ?s1" "emitted (fst (snd (read s True env))) = P r"
    using Suc.prems by (simp_all add: P)
  have n: "n = (S - ?r' + L - 1) div L"
    using pieces_left [of L r S] Suc.prems lt by simp
  have ih: "bytesRead (fst (run ?s1 (replicate (Suc n) (Op_read True env)))) = Num (of_nat S)
       \<and> emitted (snd (run ?s1 (replicate (Suc n) (Op_read True env))))
           = concat (map (\<lambda>i. P (?r' + i * L)) [0 ..< n]) @ [(''data'', DataArg Null)]"
    using Suc.prems n by (intro Suc.IH) simp_all
  have shift: "map (\<lambda>i. P (?r' + i * L)) [0 ..< n] = map (\<lambda>i. P (r + Suc i * L)) [0 ..< n]"
  proof (cases "r + L \<le> S")
    case True
    then have "?r' + i * L = r + Suc i * L" for i by (simp add: min_def)
    then show ?thesis by (simp only:)
  next
    case False
    then have "?r' = S" by (simp add: min_def)
    with n Suc.prems have "n = 0" by simp
    then show ?thesis by simp
  qed
  have run_eq: "run s (replicate (Suc (Suc n)) (Op_read True env))
      = (fst (run ?s1 (replicate (Suc n) (Op_read True env))),
         fst (snd (read s True env)) @ snd (run ?s1 (replicate (Suc n) (Op_read True env))))"
    using step(1) by (simp add: split_def)
  have unroll: "concat (map (\<lambda>i. P (r + i * L)) [0 ..< Suc n])
      = P r @ concat (map (\<lambda>i. P (r + Suc i * L)) [0 ..< n])"
    by (simp only: map_upt_Suc concat.simps) simp
  show ?case
    unfolding run_eq unroll
    using ih step(2) by (simp only: fst_conv snd_conv emitted_append shift append_assoc)
qed

lemma ceil_div:
  assumes "0 < L"
  shows "nat \<lceil>rat_of_nat S / rat_of_nat L\<rceil> = (S + L - 1) div L"
proof -
  define n where "n = (S + L - 1) div L"
  have "S + L - 1 < L + n * L"
    unfolding n_def using assms by (rule dividend_less_div_times)
  then have up: "S \<le> n * L"
    using assms by linarith
  have "n * L \<le> S + L - 1"
    unfolding n_def by (rule div_times_less_eq_dividend)
  then have lo: "n * L < S + L"
    using assms by linarith
  have up': "rat_of_nat S \<le> rat_of_nat n * rat_of_nat L"
    using up by (metis of_nat_le_iff of_nat_mult)
  have lo': "rat_of_nat n * rat_of_nat L < rat_of_nat S + rat_of_nat L"
    using lo by (metis of_nat_less_iff of_nat_mult of_nat_add)
  have L: "0 < rat_of_nat L"
    using assms by simp
  have "\<lceil>rat_of_nat S / rat_of_nat L\<rceil> = int n"
  proof (rule ceiling_unique)
    show "of_int (int n) - 1 < rat_of_nat S / rat_of_nat L"
      using lo' L by (simp add: field_simps)
    show "rat_of_nat S / rat_of_nat L \<le> of_int (int n)"
      using up' L by (simp add: field_simps)
  qed
  then show ?thesis by (simp add: n_def)
qed

text \<open>
  Claim C5, as the code has it. The source file has \<open>S\<close> bytes, \<open>S\<close> is also the declared
  size, the piece length \<open>L\<close> is positive and nothing has been read. Then \<open>n + 1\<close> calls of
  \<^verbatim>\<open>read(true)\<close>, with \<open>n\<close> the quotient \<open>S / L\<close> rounded up, emit exactly this: for each \<open>i\<close>
  below \<open>n\<close>, in order, a \<^verbatim>\<open>data\<close> event with the bytes from \<open>i * L\<close> (the value of
  \<^verbatim>\<open>bytesRead\<close> before the call) up to the lesser of \<open>i * L + L\<close> and \<open>S\<close>, with the content
  type that \<^verbatim>\<open>slice\<close> makes of the type of the instance, and then a \<^verbatim>\<open>progress\<close> event with
  the new \<^verbatim>\<open>bytesRead\<close> over \<open>S\<close>; last, one \<^verbatim>\<open>data\<close> event with \<^verbatim>\<open>null\<close>. After the calls
  \<^verbatim>\<open>bytesRead\<close> is \<open>S\<close>.
\<close>

theorem chunked_read_yields_all_pieces:
  assumes "nativeFile s = Some f" and "blob_size f = S" and "fsize s = Some S"
    and "pieceLength s = Some L" and "0 < L" and "bytesRead s = Num 0"
    and "n = nat \<lceil>rat_of_nat S / rat_of_nat L\<rceil>"
  shows "bytesRead (fst (run s (replicate (Suc n) (Op_read True env)))) = Num (of_nat S)
       \<and> emitted (snd (run s (replicate (Suc n) (Op_read True env))))
           = concat (map (\<lambda>i.
               [(''data'', DataArg (BlobData
                  \<lparr>bytes = take (min (i * L + L) S - i * L) (drop (i * L) (bytes f)),
                   btype = content_type (ftype s)\<rparr>)),
                (''progress'',
                 NumberArg (js_div (Num (of_nat (min (i * L + L) S))) (Num (of_nat S))))])
               [0 ..< n])
             @ [(''data'', DataArg Null)]"
proof -
  have n: "n = (S - 0 + L - 1) div L"
    using assms(5,7) by (simp add: ceil_div)
  show ?thesis
    using read_all_from [where s = s and f = f and S = S and L = L and r = 0
        and ty = "content_type (ftype s)" and n = n and env = env, OF refl] assms(1-6) n
    by simp
qed

theorem chunked_read_yields_all_pieces_witness:
  "nativeFile read_instance = Some sample_file
   \<and> blob_size sample_file = 10
   \<and> fsize read_instance = Some 10
   \<and> pieceLength read_instance = Some 5
   \<and> (0::nat) < 5
   \<and> bytesRead read_instance = Num 0
   \<and> (2::nat) = nat \<lceil>rat_of_nat 10 / rat_of_nat 5\<rceil>
   \<and> bytesRead (fst (run read_instance (replicate 3 (Op_read True StreamDone)))) = Num 10
   \<and> emitted (snd (run read_instance (replicate 3 (Op_read True StreamDone))))
       = [(''data'', DataArg (BlobData \<lparr>bytes = [1, 2, 3, 4, 5], btype = ''text/plain''\<rparr>)),
          (''progress'', NumberArg (Num (1 / 2))),
          (''data'', DataArg (BlobData \<lparr>bytes = [6, 7, 8, 9, 10], btype = ''text/plain''\<rparr>)),
          (''progress'', NumberArg (Num 1)),
          (''data'', DataArg Null)]"
proof -
  have h1: "nativeFile read_instance = Some sample_file"
    by (simp add: read_instance_def new_custom_file_def sample_options_def init_def
        init_try_def emit_plain)
  have h2: "blob_size sample_file = 10"
    by (simp add: sample_file_def blob_size_def)
  have h3: "fsize read_instance = Some 10"
    by (simp add: read_instance_def new_custom_file_def sample_options_def init_def
        init_try_def emit_plain)
  have h4: "pieceLength read_instance = Some 5"
    by (simp add: read_instance_def new_custom_file_def sample_options_def init_def
        init_try_def emit_plain)
  have h5: "(0::nat) < 5"
    by simp
  have h6: "bytesRead read_instance = Num 0"
    by (simp add: read_instance_def new_custom_file_def sample_options_def init_def
        init_try_def emit_plain)
  have h7: "(2::nat) = nat \<lceil>rat_of_nat 10 / rat_of_nat 5\<rceil>"
    by simp
  have ty: "content_type (ftype read_instance) = ''text/plain''"
    by (simp add: read_instance_def new_custom_file_def sample_options_def init_def
        init_try_def emit_plain content_type_def)
  have three: "replicate 3 x = replicate (Suc 2) x" for x :: op
    by (simp add: numeral_3_eq_3)
  have two: "[0 ..< 2] = [0, Suc 0]"
    by (simp add: upt_conv_Cons)
  note r = chunked_read_yields_all_pieces
    [where env = StreamDone, OF h1 h2 h3 h4 h5 h6 h7, unfolded two ty]
  have "bytesRead (fst (run read_instance (replicate 3 (Op_read True StreamDone)))) = Num 10"
    using r by (simp only: three) simp
  moreover have "emitted (snd (run read_instance (replicate 3 (Op_read True StreamDone))))
       = [(''data'', DataArg (BlobData \<lparr>bytes = [1, 2, 3, 4, 5], btype = ''text/plain''\<rparr>)),
          (''progress'', NumberArg (Num (1 / 2))),
          (''data'', DataArg (BlobData \<lparr>bytes = [6, 7, 8, 9, 10], btype = ''text/plain''\<rparr>)),
          (''progress'', NumberArg (Num 1)),
          (''data'', DataArg Null)]"
    using r by (simp only: three) (simp add: sample_file_def)
  ultimately show ?thesis
    using h1 h2 h3 h4 h5 h6 h7 by (simp only: simp_thms)
qed

text \<open>
  The claim as stated fails where the declared size is not the size of the file: with 16
  bytes declared over the ten-byte file and pieces of five bytes, the third, fourth and
  fifth \<^verbatim>\<open>read(true)\<close> each emit an empty blob, not \<^verbatim>\<open>null\<close>, and \<^verbatim>\<open>bytesRead\<close> stays at 10.
  It fails for the type too: a reader of type \<^verbatim>\<open>Text/Plain\<close> emits blobs of type
  \<^verbatim>\<open>text/plain\<close>.
\<close>

theorem chunked_read_short_file_never_ends:
  "emitted (snd (run (new_custom_file 2 long_options sample_window ''0'')
       [Op_read True StreamDone, Op_read True StreamDone, Op_read True StreamDone,
        Op_read True StreamDone, Op_read True StreamDone]))
     = [(''data'', DataArg (BlobData \<lparr>bytes = [1, 2, 3, 4, 5], btype = ''text/plain''\<rparr>)),
        (''progress'', NumberArg (Num (5 / 16))),
        (''data'', DataArg (BlobData \<lparr>bytes = [6, 7, 8, 9, 10], btype = ''text/plain''\<rparr>)),
        (''progress'', NumberArg (Num (5 / 8))),
        (''data'', DataArg (BlobData \<lparr>bytes = [], btype = ''text/plain''\<rparr>)),
        (''progress'', NumberArg (Num (5 / 8))),
        (''data'', DataArg (BlobData \<lparr>bytes = [], btype = ''text/plain''\<rparr>)),
        (''progress'', NumberArg (Num (5 / 8))),
        (''data'', DataArg (BlobData \<lparr>bytes = [], btype = ''text/plain''\<rparr>)),
        (''progress'', NumberArg (Num (5 / 8)))]
   \<and> bytesRead (fst (run (new_custom_file 2 long_options sample_window ''0'')
       [Op_read True StreamDone, Op_read True StreamDone, Op_read True StreamDone,
        Op_read True StreamDone, Op_read True StreamDone])) = Num 10
   \<and> emitted (snd (run (new_custom_file 2 capital_options sample_window ''0'')
         [Op_read True StreamDone]))
     = [(''data'', DataArg (BlobData \<lparr>bytes = [1, 2, 3, 4, 5], btype = ''text/plain''\<rparr>)),
        (''progress'', NumberArg (Num (1 / 2)))]"
proof -
  let ?s0 = "new_custom_file 2 long_options sample_window ''0''"
  have r1: "read ?s0 True StreamDone
      = (?s0\<lparr>bytesRead := Num 5\<rparr>,
         [Emitted ''data'' (DataArg (BlobData \<lparr>bytes = [1, 2, 3, 4, 5], btype = ''text/plain''\<rparr>)),
          Emitted ''progress'' (NumberArg (Num (5 / 16)))], Normal)"
    by (simp add: new_custom_file_def long_options_def sample_file_def
        read_def emit_then_def blob_slice_def blob_size_def to_index_def round_half_even_def
        content_type_def of_nullable_def Let_def split_def emit_plain callbacks_def)
  have r2: "read (?s0\<lparr>bytesRead := Num 5\<rparr>) True StreamDone
      = (?s0\<lparr>bytesRead := Num 10\<rparr>,
         [Emitted ''data'' (DataArg (BlobData \<lparr>bytes = [6, 7, 8, 9, 10], btype = ''text/plain''\<rparr>)),
          Emitted ''progress'' (NumberArg (Num (5 / 8)))], Normal)"
    by (simp add: new_custom_file_def long_options_def sample_file_def
        read_def emit_then_def blob_slice_def blob_size_def to_index_def round_half_even_def
        content_type_def of_nullable_def Let_def split_def emit_plain callbacks_def)
  have r3: "read (?s0\<lparr>bytesRead := Num 10\<rparr>) True StreamDone
      = (?s0\<lparr>bytesRead := Num 10\<rparr>,
         [Emitted ''data'' (DataArg (BlobData \<lparr>bytes = [], btype = ''text/plain''\<rparr>)),
          Emitted ''progress'' (NumberArg (Num (5 / 8)))], Normal)"
    by (simp add: new_custom_file_def long_options_def sample_file_def
        read_def emit_then_def blob_slice_def blob_size_def to_index_def round_half_even_def
        content_type_def of_nullable_def Let_def split_def emit_plain callbacks_def)
  have c1: "read (new_custom_file 2 capital_options sample_window ''0'') True StreamDone
      = (new_custom_file 2 capital_options sample_window ''0''\<lparr>bytesRead := Num 5\<rparr>,
         [Emitted ''data'' (DataArg (BlobData \<lparr>bytes = [1, 2, 3, 4, 5], btype = ''text/plain''\<rparr>)),
          Emitted ''progress'' (NumberArg (Num (1 / 2)))], Normal)"
    by (simp add: new_custom_file_def capital_options_def sample_file_def
        read_def emit_then_def blob_slice_def blob_size_def to_index_def round_half_even_def
        content_type_def of_nullable_def Let_def split_def emit_plain callbacks_def)
  show ?thesis
    by (simp add: r1 r2 r3 c1)
qed

subsection \<open>The byte counters\<close>

lemma writer_fires_counts:
  assumes "bytesWritten s = Num (of_nat w)"
  shows "bytesWritten (fst (writer_fires b evs (s, tr, p)))
           = Num (of_nat (w + count_list evs WriteEnd * blob_size b))
       \<and> bytesRead (fst (writer_fires b evs (s, tr, p))) = bytesRead s
       \<and> fsize (fst (writer_fires b evs (s, tr, p))) = fsize s"
  using assms
proof (induction evs arbitrary: s tr p w)
  case Nil
  then show ?case by simp
next
  case (Cons e evs)
  show ?case
  proof (cases e)
    case WriteEnd
    let ?s1 = "s\<lparr>bytesWritten := Num (of_nat (w + blob_size b))\<rparr>"
    obtain tr1 where "onwriteend b (s, tr, p) = (?s1, tr1, settle p Resolved)"
      using Cons.prems by (simp add: onwriteend_def Let_def emit_plain)
    then show ?thesis
      using WriteEnd Cons.IH [where s = ?s1 and w = "w + blob_size b" and tr = tr1
          and p = "settle p Resolved"]
      by (simp add: add.assoc)
  next
    case (WriteError err)
    then show ?thesis
      using Cons.IH [of s w] Cons.prems by (simp add: onerror_def)
  qed
qed

lemma of_nullable_nat:
  "of_nullable v = Num (of_nat (case v of None \<Rightarrow> 0 | Some n \<Rightarrow> n))"
  by (simp add: of_nullable_def split: option.splits)

lemma slice_size_le:
  "blob_size (blob_slice f (Num (of_nat a)) (Num (of_nat b)) ty) \<le> b - a"
  by (auto simp: blob_slice_def blob_size_def Let_def to_index_of_nat min_def)

lemma write_chunk_counts:
  assumes "bytesWritten s = Num (of_nat w)" and "counting_call s (Op_write c env)"
  shows "(\<exists>w'. bytesWritten (fst (write_chunk s c env)) = Num (of_nat w')
             \<and> w \<le> w' \<and> w' \<le> w + length (chunk_bytes c))
       \<and> bytesRead (fst (write_chunk s c env)) = bytesRead s
       \<and> fsize (fst (write_chunk s c env)) = fsize s"
proof (cases "writeMode s")
  case None
  then show ?thesis
    using assms(1) by (simp add: fst_write_chunk)
next
  case (Some wm)
  show ?thesis
  proof (cases wm)
    case Mem
    show ?thesis
    proof (cases "memoryStorage s")
      case None
      then show ?thesis
        using assms(1) Some Mem by (simp add: fst_write_chunk writeMem_def)
    next
      case (Some ms)
      have "has_size c"
        using assms(2) \<open>writeMode s = Some wm\<close> Mem by simp
      from writeMem_step [OF Some assms(1) this]
      show ?thesis
        using \<open>writeMode s = Some wm\<close> Mem
        by (intro conjI exI [of _ "w + length (chunk_bytes c)"])
          (simp_all add: fst_write_chunk)
    qed
  next
    case Fs
    show ?thesis
    proof (cases "fs s")
      case False
      then show ?thesis
        using assms(1) Some Fs by (simp add: fst_write_chunk writeFs_def)
    next
      case True
      show ?thesis
      proof (cases env)
        case (GetFileFails err)
        then show ?thesis
          using assms(1) Some Fs True by (simp add: fst_write_chunk writeFs_def)
      next
        case NoWriter
        then show ?thesis
          using assms(1) Some Fs True by (simp add: fst_write_chunk writeFs_def)
      next
        case (WriterFires evs)
        let ?s1 = "s\<lparr>create := False, fileEntry := True\<rparr>"
        let ?b = "\<lparr>bytes = chunk_bytes c, btype = content_type (ftype ?s1)\<rparr>"
        let ?tr = "[GetFile (localName s) (create s), CreateWriter,
                    Seek (bytesWritten ?s1), WriterWrite ?b]"
        have wc: "fst (write_chunk s c env) = fst (writer_fires ?b evs (?s1, ?tr, Pending))"
          using Some Fs True WriterFires by (simp add: fst_write_chunk writeFs_def Let_def)
        have b: "blob_size ?b = length (chunk_bytes c)"
          by (simp add: blob_size_def)
        have k: "count_list evs WriteEnd \<le> 1"
          using assms(2) WriterFires by simp
        have "bytesWritten ?s1 = Num (of_nat w)"
          using assms(1) by simp
        from writer_fires_counts [OF this, of ?b evs ?tr Pending]
        have r: "bytesWritten (fst (write_chunk s c env))
             = Num (of_nat (w + count_list evs WriteEnd * length (chunk_bytes c)))"
          "bytesRead (fst (write_chunk s c env)) = bytesRead s"
          "fsize (fst (write_chunk s c env)) = fsize s"
          unfolding wc b by simp_all
        have "count_list evs WriteEnd * length (chunk_bytes c) \<le> length (chunk_bytes c)"
          using k by (cases "count_list evs WriteEnd") simp_all
        then show ?thesis
          using r
          by (intro conjI exI [of _ "w + count_list evs WriteEnd * length (chunk_bytes c)"])
            simp_all
      qed
    qed
  qed
qed

lemma read_counts:
  assumes "bytesRead s = Num (of_nat r)" and "fsize s = Some S" and "r \<le> S"
  shows "(\<exists>r'. bytesRead (fst (read s True env)) = Num (of_nat r') \<and> r \<le> r' \<and> r' \<le> S)
       \<and> bytesWritten (fst (read s True env)) = bytesWritten s
       \<and> fsize (fst (read s True env)) = fsize s"
proof (cases "r < S")
  case False
  then have "\<not> js_lt (bytesRead s) (of_nullable (fsize s))"
    using assms by (simp add: of_nullable_def)
  then show ?thesis
    using assms by (simp add: read_def emit_plain)
next
  case True
  then have lt: "js_lt (bytesRead s) (of_nullable (fsize s))"
    using assms by (simp add: of_nullable_def)
  show ?thesis
  proof (cases "nativeFile s")
    case None
    then show ?thesis
      using assms lt by (simp add: read_def)
  next
    case (Some f)
    define L where "L = (case pieceLength s of None \<Rightarrow> 0 | Some n \<Rightarrow> n)"
    define e where "e = min (r + L) S"
    have stop: "js_min (js_add (bytesRead s) (of_nullable (pieceLength s))) (of_nullable (fsize s))
        = Num (of_nat e)"
      using assms
      by (cases "pieceLength s") (simp_all add: of_nullable_def of_nat_min L_def e_def)
    define b where "b = blob_slice f (Num (of_nat r)) (Num (of_nat e)) (ftype s)"
    have sz: "blob_size b \<le> e - r"
      unfolding b_def by (rule slice_size_le)
    have sl: "blob_slice f (bytesRead s)
        (js_min (js_add (bytesRead s) (of_nullable (pieceLength s))) (of_nullable (fsize s)))
        (ftype s) = b"
      using assms(1) stop by (simp add: b_def)
    have adv: "js_add (bytesRead s) (Num (of_nat (blob_size b))) = Num (of_nat (r + blob_size b))"
      using assms(1) by simp
    have st: "fst (read s True env) = s\<lparr>bytesRead := Num (of_nat (r + blob_size b))\<rparr>"
      unfolding read_def
      by (simp only: lt sl adv Some if_True option.case Let_def)
        (simp add: emit_then_def split_def emit_plain)
    have "r + blob_size b \<le> S"
      using sz True by (simp add: e_def min_def split: if_splits)
    then show ?thesis
      unfolding st by (intro conjI exI [of _ "r + blob_size b"]) simp_all
  qed
qed

lemma init_counts:
  "bytesWritten (fst (init s w env)) = bytesWritten s
   \<and> bytesRead (fst (init s w env)) = bytesRead s
   \<and> fsize (fst (init s w env)) = fsize s"
  by (simp add: fst_init init_try_def use_memory_def fst_emit fst_in_callback Let_def
      split_def split: option.splits init_env.splits)

lemma exec_counts:
  assumes "counting_call s x" and "bytesWritten s = Num (of_nat w)"
    and "bytesRead s = Num (of_nat r)" and "fsize s = Some S" and "r \<le> S"
  shows "\<exists>w' r'. bytesWritten (fst (exec s x)) = Num (of_nat w')
           \<and> bytesRead (fst (exec s x)) = Num (of_nat r')
           \<and> fsize (fst (exec s x)) = Some S
           \<and> w \<le> w' \<and> w' \<le> w + appended_bytes [x] \<and> r \<le> r' \<and> r' \<le> S"
proof (cases x)
  case (Op_init win env)
  then show ?thesis
    using assms init_counts [of s win env]
    by (intro exI [of _ w] exI [of _ r]) (simp add: split_def)
next
  case (Op_write c env)
  from write_chunk_counts [OF assms(2), of c env] assms(1) Op_write
  obtain w' where "bytesWritten (fst (write_chunk s c env)) = Num (of_nat w')"
    and "w \<le> w'" and "w' \<le> w + length (chunk_bytes c)"
    and "bytesRead (fst (write_chunk s c env)) = bytesRead s"
    and "fsize (fst (write_chunk s c env)) = fsize s"
    by auto
  then show ?thesis
    using assms Op_write
    by (intro exI [of _ w'] exI [of _ r]) (simp add: split_def)
next
  case (Op_read inChunk env)
  with assms(1) have c: "inChunk" by simp
  from read_counts [OF assms(3,4,5), of env]
  obtain r' where "bytesRead (fst (read s True env)) = Num (of_nat r')"
    and "r \<le> r'" and "r' \<le> S"
    and "bytesWritten (fst (read s True env)) = bytesWritten s"
    and "fsize (fst (read s True env)) = fsize s"
    by auto
  then show ?thesis
    using assms Op_read c
    by (intro exI [of _ w] exI [of _ r']) (simp add: split_def)
next
  case (Op_save win cb env)
  with assms(1) show ?thesis by simp
next
  case (Op_remove env)
  with assms(1) show ?thesis by simp
next
  case Op_destroy
  with assms(1) show ?thesis by simp
next
  case (Op_on evt cb)
  then show ?thesis
    using assms by (intro exI [of _ w] exI [of _ r]) (simp add: on_def super_on_def)
next
  case (Op_once evt cb)
  then show ?thesis
    using assms by (intro exI [of _ w] exI [of _ r]) (simp add: once_def super_on_def)
next
  case (Op_emit evt p)
  then show ?thesis
    using assms by (intro exI [of _ w] exI [of _ r]) (simp add: split_def fst_emit)
qed

lemma appended_bytes_Cons: "appended_bytes (x # xs) = appended_bytes [x] + appended_bytes xs"
  by (cases x) simp_all

lemma run_counts:
  assumes "counting_run s xs" and "bytesWritten s = Num (of_nat w)"
    and "bytesRead s = Num (of_nat r)" and "fsize s = Some S" and "r \<le> S"
  shows "\<exists>w' r'. bytesWritten (fst (run s xs)) = Num (of_nat w')
           \<and> bytesRead (fst (run s xs)) = Num (of_nat r')
           \<and> fsize (fst (run s xs)) = Some S
           \<and> w \<le> w' \<and> w' \<le> w + appended_bytes xs \<and> r \<le> r' \<and> r' \<le> S"
  using assms
proof (induction xs arbitrary: s w r)
  case Nil
  then show ?case by simp
next
  case (Cons x xs)
  from Cons.prems have cx: "counting_call s x" and cxs: "counting_run (fst (exec s x)) xs"
    by simp_all
  from exec_counts [OF cx Cons.prems(2,3,4,5)]
  obtain w1 r1 where s1: "bytesWritten (fst (exec s x)) = Num (of_nat w1)"
      "bytesRead (fst (exec s x)) = Num (of_nat r1)" "fsize (fst (exec s x)) = Some S"
    and b1: "w \<le> w1" "w1 \<le> w + appended_bytes [x]" "r \<le> r1" "r1 \<le> S"
    by blast
  from Cons.IH [OF cxs s1 b1(4)]
  obtain w2 r2 where s2: "bytesWritten (fst (run (fst (exec s x)) xs)) = Num (of_nat w2)"
      "bytesRead (fst (run (fst (exec s x)) xs)) = Num (of_nat r2)"
      "fsize (fst (run (fst (exec s x)) xs)) = Some S"
    and b2: "w1 \<le> w2" "w2 \<le> w1 + appended_bytes xs" "r1 \<le> r2" "r2 \<le> S"
    by blast
  have "w2 \<le> w + appended_bytes (x # xs)"
    using b1 b2 appended_bytes_Cons [of x xs] by linarith
  then show ?case
    using s2 b1 b2 by (intro exI [of _ w2] exI [of _ r2]) (simp add: split_def)
qed

lemma run_append: "fst (run s (xs @ ys)) = fst (run (fst (run s xs)) ys)"
  by (induction xs arbitrary: s) (simp_all add: split_def)

lemma counting_run_append:
  "counting_run s (xs @ ys) = (counting_run s xs \<and> counting_run (fst (run s xs)) ys)"
  by (induction xs arbitrary: s) (simp_all add: split_def)

lemma destroy_resets:
  "bytesWritten (fst (destroy t)) = Num 0 \<and> bytesRead (fst (destroy t)) = Num 0"
  by (simp add: destroy_def Let_def)

lemma remove_finish_resets:
  assumes "(''finish'', NoArgs) \<in> set (emitted (fst (snd (remove t env))))"
  shows "bytesWritten (fst (remove t env)) = Num 0 \<and> bytesRead (fst (remove t env)) = Num 0"
proof (cases "writeMode t")
  case None
  with assms show ?thesis by (simp add: remove_def)
next
  case (Some wm)
  show ?thesis
  proof (cases wm)
    case Mem
    with Some show ?thesis
      by (simp add: remove_def split_def emit_finish_normal fst_emit destroy_resets)
  next
    case Fs
    show ?thesis
    proof (cases "fs t")
      case False
      with assms Some Fs show ?thesis by (simp add: remove_def)
    next
      case True
      show ?thesis
      proof (cases env)
        case (GetFileError err)
        with assms Some Fs True show ?thesis
          by (simp add: remove_def split_def Let_def emitted_in_callback emitted_emit)
      next
        case Removed
        with Some Fs True show ?thesis
          by (simp add: remove_def split_def Let_def emit_finish_normal fst_emit
              fst_in_callback destroy_resets)
      next
        case (RemoveError err)
        with assms Some Fs True show ?thesis
          by (simp add: remove_def split_def Let_def emitted_in_callback emitted_emit)
      qed
    qed
  qed
qed

lemma emitted_save: "emitted (fst (snd (save t win cb))) = []"
  by (simp add: save_def split: option.splits write_mode.splits)

lemma save_finish_resets:
  assumes "(''finish'', NoArgs) \<in> set (emitted (snd (exec t (Op_save win cb env))))"
  shows "bytesWritten (fst (exec t (Op_save win cb env))) = Num 0
       \<and> bytesRead (fst (exec t (Op_save win cb env))) = Num 0"
proof (cases "snd (snd (snd (save t win cb)))")
  case True
  then have e: "exec t (Op_save win cb env)
      = (fst (remove t env), fst (snd (save t win cb)) @ fst (snd (remove t env)))"
    by (simp add: split_def save_state)
  with assms have "(''finish'', NoArgs) \<in> set (emitted (fst (snd (remove t env))))"
    by (simp add: emitted_append emitted_save)
  then show ?thesis
    unfolding e by (simp add: remove_finish_resets)
next
  case False
  then have "exec t (Op_save win cb env) = (t, fst (snd (save t win cb)))"
    by (simp add: split_def save_state)
  with assms show ?thesis
    by (simp add: emitted_save)
qed

text \<open>
  Claim C2, as the code has it. Both counters are 0 on a new instance. Over any sequence
  of counting calls neither counter decreases, \<^verbatim>\<open>bytesRead\<close> never exceeds the declared
  size, and \<^verbatim>\<open>bytesWritten\<close> never exceeds the total byte length of the chunks passed to
  \<^verbatim>\<open>write\<close> so far, so that it is within the declared size whenever that total is; nothing
  in the code stops a caller who appends more. \<^verbatim>\<open>destroy()\<close> puts both counters back to
  0, and so does every \<^verbatim>\<open>remove()\<close> that emits \<^verbatim>\<open>finish\<close>, called directly or queued by
  \<^verbatim>\<open>save()\<close>.
\<close>

theorem counters_grow_within_bounds:
  assumes "counting_run (new_custom_file m opts w stamp) (xs @ ys)"
  shows "bytesWritten (new_custom_file m opts w stamp) = Num 0
       \<and> bytesRead (new_custom_file m opts w stamp) = Num 0
       \<and> js_le (bytesWritten (fst (run (new_custom_file m opts w stamp) xs)))
            (bytesWritten (fst (run (new_custom_file m opts w stamp) (xs @ ys))))
       \<and> js_le (bytesRead (fst (run (new_custom_file m opts w stamp) xs)))
            (bytesRead (fst (run (new_custom_file m opts w stamp) (xs @ ys))))
       \<and> js_le (bytesRead (fst (run (new_custom_file m opts w stamp) xs)))
            (Num (of_nat (opt_size opts)))
       \<and> js_le (bytesWritten (fst (run (new_custom_file m opts w stamp) xs)))
            (Num (of_nat (appended_bytes xs)))
       \<and> (appended_bytes xs \<le> opt_size opts \<longrightarrow>
            js_le (bytesWritten (fst (run (new_custom_file m opts w stamp) xs)))
              (Num (of_nat (opt_size opts))))
       \<and> bytesWritten (fst (destroy t)) = Num 0 \<and> bytesRead (fst (destroy t)) = Num 0
       \<and> ((''finish'', NoArgs) \<in> set (emitted (fst (snd (remove t env)))) \<longrightarrow>
            bytesWritten (fst (remove t env)) = Num 0 \<and> bytesRead (fst (remove t env)) = Num 0)
       \<and> ((''finish'', NoArgs) \<in> set (emitted (snd (exec t (Op_save win cb env)))) \<longrightarrow>
            bytesWritten (fst (exec t (Op_save win cb env))) = Num 0
            \<and> bytesRead (fst (exec t (Op_save win cb env))) = Num 0)"
proof -
  let ?s0 = "new_custom_file m opts w stamp"
  have cx: "counting_run ?s0 xs" and cy: "counting_run (fst (run ?s0 xs)) ys"
    using assms by (simp_all add: counting_run_append)
  have s0: "bytesWritten ?s0 = Num (of_nat 0)" "bytesRead ?s0 = Num (of_nat 0)"
    "fsize ?s0 = Some (opt_size opts)"
    by (simp_all add: new_custom_file_def)
  from run_counts [OF cx s0]
  obtain w1 r1 where s1: "bytesWritten (fst (run ?s0 xs)) = Num (of_nat w1)"
      "bytesRead (fst (run ?s0 xs)) = Num (of_nat r1)"
      "fsize (fst (run ?s0 xs)) = Some (opt_size opts)"
    and b1: "w1 \<le> appended_bytes xs" "r1 \<le> opt_size opts"
    by auto
  from run_counts [OF cy s1 b1(2)]
  obtain w2 r2 where s2: "bytesWritten (fst (run (fst (run ?s0 xs)) ys)) = Num (of_nat w2)"
      "bytesRead (fst (run (fst (run ?s0 xs)) ys)) = Num (of_nat r2)"
    and b2: "w1 \<le> w2" "r1 \<le> r2"
    by auto
  have counts: "bytesWritten ?s0 = Num 0 \<and> bytesRead ?s0 = Num 0
       \<and> js_le (bytesWritten (fst (run ?s0 xs))) (bytesWritten (fst (run ?s0 (xs @ ys))))
       \<and> js_le (bytesRead (fst (run ?s0 xs))) (bytesRead (fst (run ?s0 (xs @ ys))))
       \<and> js_le (bytesRead (fst (run ?s0 xs))) (Num (of_nat (opt_size opts)))
       \<and> js_le (bytesWritten (fst (run ?s0 xs))) (Num (of_nat (appended_bytes xs)))
       \<and> (appended_bytes xs \<le> opt_size opts \<longrightarrow>
            js_le (bytesWritten (fst (run ?s0 xs))) (Num (of_nat (opt_size opts))))"
    using s0 s1 s2 b1 b2 by (simp add: run_append)
  show ?thesis
    using counts destroy_resets [of t] remove_finish_resets [of t env]
      save_finish_resets [of t win cb env]
    by blast
qed

theorem counters_grow_within_bounds_witness:
  "counting_run (new_custom_file 1 sample_options sample_window ''0'')
     ([Op_init sample_window Granted, Op_write sample_chunk NoWriter]
        @ [Op_write sample_chunk NoWriter])
   \<and> appended_bytes [Op_init sample_window Granted, Op_write sample_chunk NoWriter]
       \<le> opt_size sample_options
   \<and> (''finish'', NoArgs) \<in> set (emitted (fst (snd (remove mem_instance Removed))))
   \<and> js_le (bytesWritten (fst (run (new_custom_file 1 sample_options sample_window ''0'')
          [Op_init sample_window Granted, Op_write sample_chunk NoWriter])))
        (bytesWritten (fst (run (new_custom_file 1 sample_options sample_window ''0'')
          ([Op_init sample_window Granted, Op_write sample_chunk NoWriter]
             @ [Op_write sample_chunk NoWriter]))))
   \<and> js_le (bytesWritten (fst (run (new_custom_file 1 sample_options sample_window ''0'')
          [Op_init sample_window Granted, Op_write sample_chunk NoWriter])))
        (Num (of_nat (opt_size sample_options)))
   \<and> bytesWritten (fst (remove mem_instance Removed)) = Num 0
   \<and> bytesRead (fst (remove mem_instance Removed)) = Num 0"
proof -
  have s1: "fst (init (new_custom_file 1 sample_options sample_window ''0'')
        sample_window Granted) = mem_instance"
    by (simp add: mem_instance_def)
  have wm: "writeMode mem_instance = Some Mem" and ms: "memoryStorage mem_instance = Some []"
    and bw: "bytesWritten mem_instance = Num (of_nat 0)"
    by (simp_all add: mem_instance_def new_custom_file_def sample_options_def fst_init
        init_try_def use_memory_def of_nullable_def fst_emit)
  have hs: "has_size sample_chunk"
    by (simp add: sample_chunk_def has_size_def)
  have s2: "fst (write_chunk mem_instance sample_chunk NoWriter)
      = mem_instance\<lparr>memoryStorage := Some [sample_chunk],
          bytesWritten := Num (of_nat (0 + length (chunk_bytes sample_chunk)))\<rparr>"
    using writeMem_step [OF ms bw hs] wm by (simp add: fst_write_chunk)
  have h1: "counting_run (new_custom_file 1 sample_options sample_window ''0'')
     ([Op_init sample_window Granted, Op_write sample_chunk NoWriter]
        @ [Op_write sample_chunk NoWriter])"
    using wm hs by (simp add: split_def s1 s2)
  have h3: "appended_bytes [Op_init sample_window Granted, Op_write sample_chunk NoWriter]
      \<le> opt_size sample_options"
    by (simp add: sample_chunk_def sample_options_def chunk_bytes_def)
  have h4: "(''finish'', NoArgs) \<in> set (emitted (fst (snd (remove mem_instance Removed))))"
    using wm by (simp add: remove_def split_def emit_finish_normal emitted_emit)
  note r = counters_grow_within_bounds
    [where m = 1 and opts = sample_options and w = sample_window and stamp = "''0''"
       and t = mem_instance and env = Removed, OF h1]
  show ?thesis
    using r h1 h3 h4 by blast
qed

text \<open>
  The claim as stated fails twice on the sample memory instance (ten bytes declared):
  three appends of five bytes leave \<^verbatim>\<open>bytesWritten\<close> at 15, and after one append (5) a
  \<^verbatim>\<open>remove()\<close>, which runs \<^verbatim>\<open>destroy()\<close>, puts \<^verbatim>\<open>bytesWritten\<close> back to 0.
\<close>

theorem counters_exceed_and_reset:
  "fsize (fst (run mem_instance
      [Op_write sample_chunk NoWriter, Op_write sample_chunk NoWriter,
       Op_write sample_chunk NoWriter])) = Some 10
   \<and> bytesWritten (fst (run mem_instance
      [Op_write sample_chunk NoWriter, Op_write sample_chunk NoWriter,
       Op_write sample_chunk NoWriter])) = Num 15
   \<and> bytesWritten (fst (run mem_instance [Op_write sample_chunk NoWriter])) = Num 5
   \<and> bytesWritten (fst (run mem_instance
      [Op_write sample_chunk NoWriter, Op_remove Removed])) = Num 0"
  by (simp add: mem_instance_def new_custom_file_def sample_options_def init_def
      init_try_def use_memory_def of_nullable_def emit_plain sample_chunk_def blob_size_def
      chunk_get_def to_number_def write_chunk_def writeMem_def Let_def remove_def split_def
      fst_emit emit_finish_normal destroy_def)

end
